theory Spec2Isabelle
  imports Complex_Main
begin

section \<open>Kynetix steady-state kinetics solver: the data model\<close>

text \<open>
  The development embeds the numeric path of \<^verbatim>\<open>pynetics/solvers/solver_base.py\<close>:
  the class \<^verbatim>\<open>SolverBase\<close> (reaction energies, rate constants, Boltzmann coverages,
  the turnover-frequency driver, the classified numerical Jacobian, the symbolic choice of
  the transition state) and the class \<^verbatim>\<open>NewtonRoot\<close> (the constrained Newton iteration).

  Numbers. The solver computes in a multi-precision backend chosen at construction
  (\<^verbatim>\<open>mpmath\<close> by default). Every number is modelled as an exact \<^typ>\<open>real\<close>, so rounding
  is not part of the model; what is kept of the backend is that a division by zero raises
  \<^verbatim>\<open>ZeroDivisionError\<close>, as \<^verbatim>\<open>mpmath\<close> does.

  Errors. A Python exception is a value of the type \<open>error\<close>; a function that can raise
  returns \<open>error + 'a\<close> with \<open>Inl\<close> for the exception. A method that mutates the solver
  before it raises returns the solver as well.
\<close>

datatype error =
    KeyError string
  | IndexError
  | ZeroDivisionError
  | ValueError
  | AttributeError
  | UnboundLocalError

text \<open>
  A state of an elementary reaction is a list of species terms such as \<^verbatim>\<open>3H2_g\<close>; an
  elementary reaction is a list of states; \<^verbatim>\<open>ModelShell.split_species\<close>, which cuts a term
  into its stoichiometric number and its species name, is inherited from a class that is
  not part of the sources at hand, so every function that calls it takes it as the
  parameter \<open>sp\<close>.
\<close>

type_synonym rxn_state = "string list"
type_synonym elementary_rxn = "rxn_state list"
type_synonym splitter = "string \<Rightarrow> int \<times> string"
type_synonym energies = "string \<rightharpoonup> real"

text \<open>The entries of \<^verbatim>\<open>species_definitions[name]\<close>; an absent key is \<open>None\<close>.\<close>

record species_def =
  sp_type :: "string option"
  sp_site :: "string option"
  pressure :: "real option"
  formation_energy :: "real option"
  frequencies :: "real list option"

text \<open>The fields of the owning model object that the solver reads.\<close>

record model =
  kB :: real
  h_planck :: real
  temperature :: real
  hasdata :: bool
  gas_names :: "string list"
  adsorbate_names :: "string list"
  transition_state_names :: "string list"
  site_names :: "string list"
  species_definitions :: "(string \<times> species_def) list"
  elementary_rxns_list :: "elementary_rxn list"
  state_energy_dict :: "(string \<rightharpoonup> real) option"

text \<open>
  The symbolic layer builds \<^verbatim>\<open>sympy\<close> expressions; the ones that the embedded methods
  build are sums and differences of symbols and integer multiples of symbols.
\<close>

datatype sym_expr =
    Symbol string
  | Add sym_expr sym_expr
  | Sub sym_expr sym_expr
  | Times int sym_expr

text \<open>
  The attributes of the solver object that the embedded methods read or write. The
  attributes \<^verbatim>\<open>_Gaf\<close>, \<^verbatim>\<open>_Gar\<close>, \<^verbatim>\<open>_kfs\<close>, \<^verbatim>\<open>_krs\<close>, \<^verbatim>\<open>_rates\<close> and
  \<^verbatim>\<open>_cvg_types\<close> lose their underscore, \<^verbatim>\<open>frequencies\<close> is \<open>freqs\<close>, and \<open>archive\<close>
  is the list of the labels handed to \<^verbatim>\<open>logger.archive_data\<close>, oldest first.
\<close>

record solver =
  owner :: model
  rxns_list :: "elementary_rxn list"
  has_data :: bool
  energy_correction :: bool
  has_symbols :: bool
  p :: "string \<rightharpoonup> real"
  E :: energies
  freqs :: "string \<rightharpoonup> real list"
  Gaf :: "real list"
  Gar :: "real list"
  kfs :: "real list"
  krs :: "real list"
  cvg_types :: "string list"
  Gs_order :: "string list"
  rates :: "real list \<times> real list"
  net_rates :: "real list"
  tof :: "real list"
  archive :: "string list"
  sp_list :: "string list"
  G_sym :: "sym_expr list"

section \<open>Reaction energies and rate constants\<close>

definition py_div :: "real \<Rightarrow> real \<Rightarrow> error + real" where
  "py_div a b = (if b = 0 then Inl ZeroDivisionError else Inr (a / b))"

text \<open>Python's \<^verbatim>\<open>max(a, b)\<close> keeps the first argument unless the second is greater.\<close>

definition py_max :: "real \<Rightarrow> real \<Rightarrow> real" where
  "py_max a b = (if b > a then b else a)"

text \<open>
  The loop \<^verbatim>\<open>for sp in state: G += stoichiometry * self.E[species_name]\<close>, started at the
  accumulator \<open>G\<close>; the dictionary lookup raises \<^verbatim>\<open>KeyError\<close> at the first species that has
  no energy.
\<close>

fun add_state_energy :: "splitter \<Rightarrow> energies \<Rightarrow> real \<Rightarrow> rxn_state \<Rightarrow> error + real" where
  "add_state_energy sp En G [] = Inr G"
| "add_state_energy sp En G (t # ts) =
     (case sp t of (stoichiometry, species_name) \<Rightarrow>
        (case En species_name of
           None \<Rightarrow> Inl (KeyError species_name)
         | Some e \<Rightarrow> add_state_energy sp En (G + of_int stoichiometry * e) ts))"

text \<open>
  The first half of \<^verbatim>\<open>get_reaction_energies\<close>: the free energies \<open>(G_IS, G_TS, G_FS)\<close> of
  the three states. \<^verbatim>\<open>elementary_rxn_list[0]\<close> raises \<^verbatim>\<open>IndexError\<close> on an empty list and
  \<^verbatim>\<open>[-1]\<close> is the last state. \<open>G_TS\<close> starts at 0, becomes the maximum for two states,
  and accumulates the middle state for three; for any other length it stays 0.
\<close>

definition get_state_energies ::
    "splitter \<Rightarrow> energies \<Rightarrow> elementary_rxn \<Rightarrow> error + (real \<times> real \<times> real)" where
  "get_state_energies sp En rxn =
     (if rxn = [] then Inl IndexError
      else case add_state_energy sp En 0 (hd rxn) of
        Inl e \<Rightarrow> Inl e
      | Inr G_IS \<Rightarrow>
         (case add_state_energy sp En 0 (last rxn) of
            Inl e \<Rightarrow> Inl e
          | Inr G_FS \<Rightarrow>
             (let G_TS = (if length rxn = 2 then py_max G_IS G_FS else 0) in
              if length rxn = 3
              then (case add_state_energy sp En G_TS (rxn ! 1) of
                      Inl e \<Rightarrow> Inl e
                    | Inr G_TS' \<Rightarrow> Inr (G_IS, G_TS', G_FS))
              else Inr (G_IS, G_TS, G_FS))))"

definition get_reaction_energies ::
    "splitter \<Rightarrow> energies \<Rightarrow> elementary_rxn \<Rightarrow> error + (real \<times> real)" where
  "get_reaction_energies sp En rxn =
     (case get_state_energies sp En rxn of
        Inl e \<Rightarrow> Inl e
      | Inr (G_IS, G_TS, G_FS) \<Rightarrow> Inr (G_TS - G_IS, G_TS - G_FS))"

text \<open>
  One pass of the loop of \<^verbatim>\<open>get_rate_constants\<close>: the two barriers and the two rate
  constants of one reaction. The quotient \<^verbatim>\<open>-delta_G/(kB*T)\<close> raises when \<open>kB*T\<close> is 0.
\<close>

definition rate_constant :: "real \<Rightarrow> real \<Rightarrow> real \<Rightarrow> real \<Rightarrow> error + real" where
  "rate_constant prefactor k_B T delta_G =
     (case py_div (- delta_G) (k_B * T) of
        Inl e \<Rightarrow> Inl e
      | Inr q \<Rightarrow> Inr (prefactor * exp q))"

fun rate_constants_loop ::
    "splitter \<Rightarrow> energies \<Rightarrow> real \<Rightarrow> real \<Rightarrow> real \<Rightarrow> elementary_rxn list \<Rightarrow>
     (real list \<times> real list \<times> real list \<times> real list) \<Rightarrow>
     error + (real list \<times> real list \<times> real list \<times> real list)" where
  "rate_constants_loop sp En prefactor k_B T [] acc = Inr acc"
| "rate_constants_loop sp En prefactor k_B T (rxn # rxns) (dGfs, dGrs, kfl, krl) =
     (case get_reaction_energies sp En rxn of
        Inl e \<Rightarrow> Inl e
      | Inr (delta_Gf, delta_Gr) \<Rightarrow>
         (case rate_constant prefactor k_B T delta_Gf of
            Inl e \<Rightarrow> Inl e
          | Inr kf \<Rightarrow>
             (case rate_constant prefactor k_B T delta_Gr of
                Inl e \<Rightarrow> Inl e
              | Inr kr \<Rightarrow>
                 rate_constants_loop sp En prefactor k_B T rxns
                   (dGfs @ [delta_Gf], dGrs @ [delta_Gr], kfl @ [kf], krl @ [kr]))))"

text \<open>
  \<^verbatim>\<open>get_rate_constants\<close>: the prefactor \<open>kB*T/h\<close> is computed before the loop; on success
  the four tuples are stored in the solver and the rate constants are returned. An
  exception leaves the solver as it was.
\<close>

definition get_rate_constants ::
    "splitter \<Rightarrow> solver \<Rightarrow> (error + (real list \<times> real list)) \<times> solver" where
  "get_rate_constants sp s =
     (let k_B = kB (owner s); hh = h_planck (owner s); T = temperature (owner s) in
      case py_div (k_B * T) hh of
        Inl e \<Rightarrow> (Inl e, s)
      | Inr prefactor \<Rightarrow>
         (case rate_constants_loop sp (E s) prefactor k_B T (rxns_list s) ([], [], [], []) of
            Inl e \<Rightarrow> (Inl e, s)
          | Inr (dGfs, dGrs, kfl, krl) \<Rightarrow>
             (Inr (kfl, krl), s\<lparr>Gaf := dGfs, Gar := dGrs, kfs := kfl, krs := krl\<rparr>)))"


section \<open>Loading the species data\<close>







section \<open>Boltzmann coverages\<close>






section \<open>Turnover frequencies\<close>

text \<open>
  \<^verbatim>\<open>get_tof\<close> calls collaborators that are not part of the sources at hand; they are the
  fields of \<open>tof_env\<close>. \<open>initial_guess\<close> is the attribute of that name;
  \<open>get_steady_state_cvgs\<close> is the root finder of the subclass; \<open>cvg_tuple2dict\<close> turns a
  coverage tuple into the dictionary \<^verbatim>\<open>theta\<close>; \<open>exec_rate_expressions\<close> stands for the
  text of the rate expressions together with its execution by \<^verbatim>\<open>exec\<close>, which reads the
  locals \<^verbatim>\<open>theta\<close>, \<^verbatim>\<open>kf\<close>, \<^verbatim>\<open>kr\<close>, \<^verbatim>\<open>p\<close> and assigns the entries of \<^verbatim>\<open>rfs\<close> and
  \<^verbatim>\<open>rrs\<close>; \<open>gas_matrix\<close> is the gas stoichiometry matrix, one row per reaction. All of
  them read the solver and return a value.
\<close>

record tof_env =
  initial_guess :: "real list"
  get_steady_state_cvgs :: "solver \<Rightarrow> real list \<Rightarrow> error + real list"
  cvg_tuple2dict :: "solver \<Rightarrow> real list \<Rightarrow> (string \<rightharpoonup> real)"
  exec_rate_expressions ::
    "(string \<rightharpoonup> real) \<Rightarrow> real list \<Rightarrow> real list \<Rightarrow> (string \<rightharpoonup> real) \<Rightarrow>
     error + (real list \<times> real list)"
  gas_matrix :: "real list list"

text \<open>The loop \<^verbatim>\<open>for intermediate, G in zip(Gs_order, Gs): self.E[intermediate] = G\<close>.\<close>

fun overwrite_energies :: "energies \<Rightarrow> (string \<times> real) list \<Rightarrow> energies" where
  "overwrite_energies En [] = En"
| "overwrite_energies En ((intermediate, G) # rest) =
     overwrite_energies (En(intermediate \<mapsto> G)) rest"

definition get_rates ::
    "splitter \<Rightarrow> tof_env \<Rightarrow> real list \<Rightarrow> solver \<Rightarrow>
     (error + (real list \<times> real list)) \<times> solver" where
  "get_rates sp env cvgs_tuple s =
     (let theta = cvg_tuple2dict env s cvgs_tuple in
      case get_rate_constants sp s of
        (Inl e, s1) \<Rightarrow> (Inl e, s1)
      | (Inr (kf, kr), s1) \<Rightarrow>
         (case exec_rate_expressions env theta kf kr (p s1) of
            Inl e \<Rightarrow> (Inl e, s1)
          | Inr (rfs, rrs) \<Rightarrow>
             (Inr (rfs, rrs),
              s1\<lparr>rates := (rfs, rrs), archive := archive s1 @ [''rates'']\<rparr>)))"

definition get_net_rates :: "real list \<Rightarrow> real list \<Rightarrow> solver \<Rightarrow> real list \<times> solver" where
  "get_net_rates rfs rrs s =
     (let nr = map (\<lambda>(rf, rr). rf - rr) (zip rfs rrs) in
      (nr, s\<lparr>net_rates := nr, archive := archive s @ [''net_rates'']\<rparr>))"

text \<open>
  The product of the row vector of net rates with the matrix of absolute values; the
  shapes must agree.
\<close>

definition row_times_matrix :: "real list \<Rightarrow> real list list \<Rightarrow> error + real list" where
  "row_times_matrix v M =
     (if length M \<noteq> length v then Inl ValueError
      else Inr (map (\<lambda>col. sum_list (map (\<lambda>(a, b). a * b) (zip v col))) (transpose M)))"

definition get_tof ::
    "splitter \<Rightarrow> tof_env \<Rightarrow> real list \<Rightarrow> solver \<Rightarrow> (error + real list) \<times> solver" where
  "get_tof sp env Gs s =
     (let order = adsorbate_names (owner s) @ transition_state_names (owner s);
          s1 = s\<lparr>Gs_order := order\<rparr>;
          s2 = s1\<lparr>E := overwrite_energies (E s1) (zip order Gs)\<rparr>
      in case get_rate_constants sp s2 of
           (Inl e, s3) \<Rightarrow> (Inl e, s3)
         | (Inr _, s3) \<Rightarrow>
            (case get_steady_state_cvgs env s3 (initial_guess env) of
               Inl e \<Rightarrow> (Inl e, s3)
             | Inr steady_state_cvg \<Rightarrow>
                (case get_rates sp env steady_state_cvg s3 of
                   (Inl e, s4) \<Rightarrow> (Inl e, s4)
                 | (Inr (rfs, rrs), s4) \<Rightarrow>
                    (case get_net_rates rfs rrs s4 of
                       (nr, s5) \<Rightarrow>
                        (case row_times_matrix nr (map (map abs) (gas_matrix env)) of
                           Inl e \<Rightarrow> (Inl e, s5)
                         | Inr tof_list \<Rightarrow>
                            (Inr tof_list,
                             s5\<lparr>tof := tof_list, archive := archive s5 @ [''tofs'']\<rparr>))))))"

section \<open>The classified numerical Jacobian\<close>

text \<open>
  The method works on the matrix class of the numeric backend, \<^verbatim>\<open>self._matrix\<close>, which
  belongs to a library outside the sources: \<^verbatim>\<open>mp.matrix\<close> for the default \<^verbatim>\<open>mpmath\<close>
  backend, a \<^verbatim>\<open>numpy\<close> matrix for \<^verbatim>\<open>gmpy\<close>. Column vectors are lists, and the three
  operations of the class whose outcome depends on the library are parameters:
  \<open>reshape_column\<close> is the call \<^verbatim>\<open>.reshape(-1, 1)\<close>, \<open>mat_sub\<close> the difference of two
  columns and \<open>mat_div\<close> the quotient of a column by a scalar. Each of them may raise.
\<close>

record matrix_backend =
  reshape_column :: "real list \<Rightarrow> error + real list"
  mat_sub :: "real list \<Rightarrow> real list \<Rightarrow> error + real list"
  mat_div :: "real list \<Rightarrow> real \<Rightarrow> error + real list"

text \<open>\<^verbatim>\<open>delta = abs(h*xj[j]); delta = max(delta, h)\<close>\<close>

definition step_size :: "real \<Rightarrow> real \<Rightarrow> real" where
  "step_size h xj = py_max (\<bar>h * xj\<bar>) h"

text \<open>
  The body of the loop over \<open>j\<close> up to the column \<open>Jj\<close>. The test \<^verbatim>\<open>j <= inter_num - 1\<close>
  is over Python's integers, where \<open>inter_num - 1\<close> is \<open>-1\<close> when there is no adsorbate.
\<close>

definition jacobian_column ::
    "matrix_backend \<Rightarrow> (real list \<Rightarrow> real list) \<Rightarrow> real list \<Rightarrow> real \<Rightarrow> nat \<Rightarrow>
     real list \<Rightarrow> nat \<Rightarrow> error + real list" where
  "jacobian_column ops f x h inter_num fx j =
     (let delta = step_size h (x ! j) in
      if int j \<le> int inter_num - 1
      then (let xj = x[j := x ! j + delta] in
            case mat_sub ops (f xj) fx of
              Inl e \<Rightarrow> Inl e
            | Inr d \<Rightarrow> mat_div ops d delta)
      else (let xj = x[j := x ! j - delta] in
            case mat_sub ops (f xj) fx of
              Inl e \<Rightarrow> Inl e
            | Inr d \<Rightarrow> mat_div ops d (- delta)))"

text \<open>
  The inner loop \<^verbatim>\<open>for i in xrange(m): J[i, j] = Jj[i]\<close>; a matrix is the list of its
  rows, and \<^verbatim>\<open>Jj[i]\<close> raises \<^verbatim>\<open>IndexError\<close> beyond the end of the column.
\<close>

fun store_column ::
    "real list list \<Rightarrow> nat \<Rightarrow> real list \<Rightarrow> nat list \<Rightarrow> error + real list list" where
  "store_column Jm j Jj [] = Inr Jm"
| "store_column Jm j Jj (i # rest) =
     (if i < length Jj then store_column (Jm[i := (Jm ! i)[j := Jj ! i]]) j Jj rest
      else Inl IndexError)"

fun jacobian_loop ::
    "matrix_backend \<Rightarrow> (real list \<Rightarrow> real list) \<Rightarrow> real list \<Rightarrow> real \<Rightarrow> nat \<Rightarrow>
     real list \<Rightarrow> nat list \<Rightarrow> real list list \<Rightarrow> error + real list list" where
  "jacobian_loop ops f x h inter_num fx [] Jm = Inr Jm"
| "jacobian_loop ops f x h inter_num fx (j # rest) Jm =
     (case jacobian_column ops f x h inter_num fx j of
        Inl e \<Rightarrow> Inl e
      | Inr Jj \<Rightarrow>
         (case store_column Jm j Jj [0..<length fx] of
            Inl e \<Rightarrow> Inl e
          | Inr Jm' \<Rightarrow> jacobian_loop ops f x h inter_num fx rest Jm'))"

text \<open>
  \<^verbatim>\<open>classified_numerical_jacobian\<close>. The point is first made a column by
  \<^verbatim>\<open>self._matrix(x).reshape(-1, 1)\<close>, before \<open>f\<close> is called. The entries of the fresh
  matrix \<^verbatim>\<open>self._matrix(m, n)\<close> are all overwritten when both iterations run to their end, so
  that their first content, written 0 here, is not seen. The line \<^verbatim>\<open>print j\<close> writes to the
  standard output and is left out.
\<close>

definition classified_numerical_jacobian ::
    "matrix_backend \<Rightarrow> solver \<Rightarrow> (real list \<Rightarrow> real list) \<Rightarrow> real list \<Rightarrow> real \<Rightarrow>
     error + real list list" where
  "classified_numerical_jacobian ops s f x h =
     (case reshape_column ops x of
        Inl e \<Rightarrow> Inl e
      | Inr xc \<Rightarrow>
         (let fx = f xc; m = length fx; n = length xc;
              Jm = replicate m (replicate n 0);
              inter_num = length (adsorbate_names (owner s))
          in jacobian_loop ops f xc h inter_num fx [0..<n] Jm))"

section \<open>The constrained Newton iteration\<close>

text \<open>
  A point is a Python sequence, and the test \<^verbatim>\<open>x1 == x0\<close> of the loop compares two
  sequence objects: a tuple and a list are never equal, and two sequences of one class are
  equal when their items are. The model keeps the items of a point as a list and the class
  of the object beside them; the classes covered are the tuple and the list.
\<close>

datatype container = PyTuple | PyList

definition py_seq_eq :: "container \<Rightarrow> real list \<Rightarrow> container \<Rightarrow> real list \<Rightarrow> bool" where
  "py_seq_eq c1 x1 c0 x0 = (c1 = c0 \<and> x1 = x0)"

text \<open>
  The attributes of a \<^verbatim>\<open>NewtonRoot\<close> object, prefixed with \<open>nr_\<close> where the bare name
  would be taken for a variable. \<open>nr_x0\<close> holds the items of the starting point and
  \<open>x0_class\<close> the class of the object that the caller passed; \<open>real_constraint\<close> gives the
  items of the constrained point and \<open>constraint_class\<close> the class of the object that the
  caller's function returns. \<open>dtheta_dt_expressions\<close> is set only when the keyword argument
  is given. \<open>golden\<close> is \<^verbatim>\<open>scipy.optimize.golden\<close>, the line search, which maps the
  function \<^verbatim>\<open>fl\<close> to a step length. The linear solver may raise.
\<close>

record 'e newton_root =
  nr_f :: "real list \<Rightarrow> real list"
  nr_J :: "'e \<Rightarrow> real list \<Rightarrow> real list list"
  nr_x0 :: "real list"
  x0_class :: container
  real_constraint :: "real list \<Rightarrow> real list"
  constraint_class :: "real list \<Rightarrow> container"
  nr_norm :: "real list \<Rightarrow> real"
  Axb_solver :: "real list list \<Rightarrow> real list \<Rightarrow> error + real list"
  dtheta_dt_expressions :: "'e option"
  golden :: "(real \<Rightarrow> real) \<Rightarrow> real"

definition quasi_constraint :: "real list \<Rightarrow> real list" where
  "quasi_constraint x = x"

text \<open>Which of the two functions the attribute \<^verbatim>\<open>self.constraint\<close> holds.\<close>

datatype constraint_choice = QuasiConstraint | RealConstraint

definition apply_constraint ::
    "'e newton_root \<Rightarrow> constraint_choice \<Rightarrow> real list \<Rightarrow> real list" where
  "apply_constraint N c x =
     (case c of QuasiConstraint \<Rightarrow> quasi_constraint x | RealConstraint \<Rightarrow> real_constraint N x)"

text \<open>
  The class of \<^verbatim>\<open>self.constraint(vec2tup(x1))\<close>: the argument is a tuple, which the
  quasi-constraint returns as it is.
\<close>

definition constrained_class ::
    "'e newton_root \<Rightarrow> constraint_choice \<Rightarrow> real list \<Rightarrow> container" where
  "constrained_class N c x =
     (case c of QuasiConstraint \<Rightarrow> PyTuple | RealConstraint \<Rightarrow> constraint_class N x)"

text \<open>
  The generator \<^verbatim>\<open>__iter__\<close> is a state machine: its frame holds the counter, the current
  point \<^verbatim>\<open>x0\<close> (its items in \<open>x_cur\<close>, its class in \<open>x_class\<close>) and the flag \<^verbatim>\<open>cancel\<close>;
  \<open>finished\<close> says that the generator has returned; \<open>constraint\<close> is the attribute
  \<^verbatim>\<open>self.constraint\<close>, unset before the first pass; \<open>out\<close> collects the printed lines.
\<close>

record gen_state =
  iter_counter :: nat
  x_cur :: "real list"
  x_class :: container
  cancel :: bool
  finished :: bool
  constraint :: "constraint_choice option"
  out :: "string list"

text \<open>What one call of \<^verbatim>\<open>next\<close> gives: a yielded triple, the end of the sequence, or an exception.\<close>

datatype step_result =
    Yield "real list \<times> real \<times> real list"
  | StopIteration
  | Raise error

text \<open>The frame when the loop is first entered.\<close>

definition newton_init :: "'e newton_root \<Rightarrow> gen_state" where
  "newton_init N =
     \<lparr>iter_counter = 0, x_cur = quasi_constraint (nr_x0 N), x_class = x0_class N,
      cancel = False, finished = False, constraint = None, out = []\<rparr>"

text \<open>\<^verbatim>\<open>self._matrix(x0) + l*s\<close>\<close>

definition stepped_point :: "real list \<Rightarrow> real \<Rightarrow> real list \<Rightarrow> real list" where
  "stepped_point x l s = map (\<lambda>(u, v). u + l * v) (zip x s)"

text \<open>
  The linear solve \<^verbatim>\<open>self._Axb_solver(Jx, fxn)\<close> at the point \<open>x\<close>, and the point
  \<^verbatim>\<open>self._matrix(x0) + l*s\<close> for the step length \<open>l\<close> that the line search picks.
\<close>

definition newton_direction :: "'e newton_root \<Rightarrow> 'e \<Rightarrow> real list \<Rightarrow> error + real list" where
  "newton_direction N ex x = Axb_solver N (nr_J N ex x) (map uminus (nr_f N x))"

definition line_search_point :: "'e newton_root \<Rightarrow> real list \<Rightarrow> real list \<Rightarrow> real list" where
  "line_search_point N x s =
     (let l = golden N (\<lambda>l. nr_norm N (nr_f N (stepped_point x l s))) in stepped_point x l s)"

text \<open>
  One pass of the loop, from the test \<^verbatim>\<open>while not cancel\<close> to the \<^verbatim>\<open>yield\<close>. The sum
  \<^verbatim>\<open>self._matrix(x0) + l*s\<close> needs \<open>s\<close> to have the length of the point; it is first
  computed inside the line search.
\<close>

definition newton_next :: "'e newton_root \<Rightarrow> gen_state \<Rightarrow> step_result \<times> gen_state" where
  "newton_next N st =
     (if finished st then (StopIteration, st)
      else if cancel st then (StopIteration, st\<lparr>finished := True\<rparr>)
      else
        let c = iter_counter st + 1;
            choice = (if c \<le> 5 then QuasiConstraint else RealConstraint);
            st1 = st\<lparr>iter_counter := c, constraint := Some choice\<rparr>;
            x = x_cur st1
        in case dtheta_dt_expressions N of
             None \<Rightarrow> (Raise AttributeError, st1\<lparr>finished := True\<rparr>)
           | Some ex \<Rightarrow>
              (case newton_direction N ex x of
                 Inl e \<Rightarrow>
                  (if e = ZeroDivisionError
                   then (StopIteration,
                         st1\<lparr>out := out st1 @ [''ZeroDivisionError!''], cancel := True,
                              finished := True\<rparr>)
                   else (Raise e, st1\<lparr>finished := True\<rparr>))
               | Inr s \<Rightarrow>
                  (if length s \<noteq> length x then (Raise ValueError, st1\<lparr>finished := True\<rparr>)
                   else
                     let x1 = apply_constraint N choice (line_search_point N x s);
                         c1 = constrained_class N choice (line_search_point N x s);
                         st2 = (if py_seq_eq c1 x1 (x_class st1) x
                                then st1\<lparr>out := out st1 @ [''Solver: Found stationary point.''],
                                         cancel := True\<rparr>
                                else st1);
                         fx1 = nr_f N x1
                     in (Yield (x1, nr_norm N fx1, fx1), st2\<lparr>x_cur := x1, x_class := c1\<rparr>))))"

text \<open>
  A caller that pulls at most \<open>n\<close> elements: the elements it gets, how the pulling ended
  and the frame it leaves. \<open>Suspended\<close> means that the caller stopped pulling while the
  generator could still go on.
\<close>

datatype outcome = Exhausted | Raised error | Suspended

fun newton_take ::
    "nat \<Rightarrow> 'e newton_root \<Rightarrow> gen_state \<Rightarrow>
     (real list \<times> real \<times> real list) list \<times> outcome \<times> gen_state" where
  "newton_take 0 N st = ([], Suspended, st)"
| "newton_take (Suc n) N st =
     (case newton_next N st of
        (Yield t, st') \<Rightarrow>
          (case newton_take n N st' of (ts, r, st'') \<Rightarrow> (t # ts, r, st''))
      | (StopIteration, st') \<Rightarrow> ([], Exhausted, st')
      | (Raise e, st') \<Rightarrow> ([], Raised e, st'))"

section \<open>The symbolic choice of the transition state\<close>













section \<open>The notions of the specification\<close>

text \<open>
  The definitions of this section follow the words of the specification, not the code:
  the stoichiometry-weighted sum of the free energies of a state, the free energies of
  the initial, transition and final state of an elementary reaction of two or three
  states (with two states the transition state is the higher of the two), the barriers,
  and the Eyring expression \<open>k = (kB T / h) exp (- \<Delta>G / (kB T))\<close>.
\<close>

definition weighted_sum :: "splitter \<Rightarrow> energies \<Rightarrow> rxn_state \<Rightarrow> real" where
  "weighted_sum sp En st = (\<Sum>t\<leftarrow>st. of_int (fst (sp t)) * the (En (snd (sp t))))"

definition species_of :: "splitter \<Rightarrow> rxn_state \<Rightarrow> string set" where
  "species_of sp st = (\<lambda>t. snd (sp t)) ` set st"

definition rxn_species :: "splitter \<Rightarrow> elementary_rxn \<Rightarrow> string set" where
  "rxn_species sp rxn = (\<Union>st\<in>set rxn. species_of sp st)"

definition network_species :: "splitter \<Rightarrow> elementary_rxn list \<Rightarrow> string set" where
  "network_species sp rxns = (\<Union>rxn\<in>set rxns. rxn_species sp rxn)"

definition well_formed_rxn :: "elementary_rxn \<Rightarrow> bool" where
  "well_formed_rxn rxn = (length rxn = 2 \<or> length rxn = 3)"

definition G_IS :: "splitter \<Rightarrow> energies \<Rightarrow> elementary_rxn \<Rightarrow> real" where
  "G_IS sp En rxn = weighted_sum sp En (hd rxn)"

definition G_FS :: "splitter \<Rightarrow> energies \<Rightarrow> elementary_rxn \<Rightarrow> real" where
  "G_FS sp En rxn = weighted_sum sp En (last rxn)"

definition G_TS :: "splitter \<Rightarrow> energies \<Rightarrow> elementary_rxn \<Rightarrow> real" where
  "G_TS sp En rxn =
     (if length rxn = 3 then weighted_sum sp En (rxn ! 1)
      else max (G_IS sp En rxn) (G_FS sp En rxn))"

definition eyring :: "real \<Rightarrow> real \<Rightarrow> real \<Rightarrow> real \<Rightarrow> real" where
  "eyring k_B hh T delta_G = (k_B * T / hh) * exp (- delta_G / (k_B * T))"

definition forward_barrier :: "splitter \<Rightarrow> energies \<Rightarrow> elementary_rxn \<Rightarrow> real" where
  "forward_barrier sp En rxn = G_TS sp En rxn - G_IS sp En rxn"

definition reverse_barrier :: "splitter \<Rightarrow> energies \<Rightarrow> elementary_rxn \<Rightarrow> real" where
  "reverse_barrier sp En rxn = G_TS sp En rxn - G_FS sp En rxn"

section \<open>A concrete network\<close>

text \<open>
  Modelled from the spec: \<^verbatim>\<open>ModelShell.split_species\<close> is not part of the sources at
  hand. The specification splits a term such as \<^verbatim>\<open>3H2_g\<close> into the coefficient 3 and the
  species name \<^verbatim>\<open>H2_g\<close>, and a term without a leading number has the coefficient 1.
  \<open>split_species\<close> is used only to run the embedded methods on concrete networks; every
  general statement below holds for an arbitrary splitter.
\<close>

definition is_digit :: "char \<Rightarrow> bool" where
  "is_digit c = (c \<in> set ''0123456789'')"

definition digit_value :: "char \<Rightarrow> nat" where
  "digit_value c = of_char c - 48"

definition split_species :: splitter where
  "split_species t =
     (let ds = takeWhile is_digit t in
      (if ds = [] then 1 else int (foldl (\<lambda>n c. 10 * n + digit_value c) 0 ds),
       dropWhile is_digit t))"

definition example_rxns :: "elementary_rxn list" where
  "example_rxns =
     [[[''CO_g'', ''*_s''], [''CO_s'']],
      [[''CO_s'', ''O_s''], [''CO-O_s'', ''*_s''], [''CO2_g'', ''2*_s'']]]"

definition example_model :: model where
  "example_model =
     \<lparr>kB = 1 / 2, h_planck = 1, temperature = 2, hasdata = True,
      gas_names = [''CO_g'', ''CO2_g''],
      adsorbate_names = [''CO_s'', ''O_s''],
      transition_state_names = [''CO-O_s''],
      site_names = [''s''],
      species_definitions = [],
      elementary_rxns_list = example_rxns,
      state_energy_dict = None\<rparr>"

definition example_E :: energies where
  "example_E = [''CO_g'' \<mapsto> 0, ''CO2_g'' \<mapsto> - 2, ''*_s'' \<mapsto> 0, ''CO_s'' \<mapsto> - 3 / 2,
                ''O_s'' \<mapsto> - 1, ''CO-O_s'' \<mapsto> - 1 / 2]"

definition example_solver :: solver where
  "example_solver =
     \<lparr>owner = example_model, rxns_list = example_rxns, has_data = True,
      energy_correction = False, has_symbols = False, p = [''CO_g'' \<mapsto> 1, ''CO2_g'' \<mapsto> 0],
      E = example_E, freqs = Map.empty, Gaf = [], Gar = [], kfs = [], krs = [],
      cvg_types = [], Gs_order = [], rates = ([], []), net_rates = [], tof = [],
      archive = [], sp_list = [], G_sym = []\<rparr>"

text \<open>The same solver when the transition state \<^verbatim>\<open>CO-O_s\<close> has no free energy.\<close>

definition example_solver_missing :: solver where
  "example_solver_missing = example_solver\<lparr>E := (E example_solver)(''CO-O_s'' := None)\<rparr>"


text \<open>
  Collaborators for running \<^verbatim>\<open>get_tof\<close> on the concrete network: a root finder that
  returns its initial guess and rate expressions that return the rate constants.
\<close>

definition example_env :: tof_env where
  "example_env =
     \<lparr>initial_guess = [1 / 2, 1 / 4],
      get_steady_state_cvgs = (\<lambda>s guess. Inr guess),
      cvg_tuple2dict = (\<lambda>s cvgs. [''CO_s'' \<mapsto> cvgs ! 0, ''O_s'' \<mapsto> cvgs ! 1,
                                    ''*_s'' \<mapsto> 1 - cvgs ! 0 - cvgs ! 1]),
      exec_rate_expressions = (\<lambda>theta kf kr pr. Inr (kf, kr)),
      gas_matrix = [[- 1, 0], [0, 1]]\<rparr>"

text \<open>
  The one-sided difference quotient of the \<open>i\<close>-th component of \<open>f\<close> when the \<open>j\<close>-th
  coordinate of \<open>x\<close> moves by the signed step \<open>d\<close>.
\<close>

definition difference_quotient ::
    "(real list \<Rightarrow> real list) \<Rightarrow> real list \<Rightarrow> nat \<Rightarrow> real \<Rightarrow> nat \<Rightarrow> real" where
  "difference_quotient f x j d i = (f (x[j := x ! j + d]) ! i - f x ! i) / d"

text \<open>A vector function of three coordinates for running the Jacobian.\<close>

definition example_f :: "real list \<Rightarrow> real list" where
  "example_f y = [y ! 0 + y ! 1 + y ! 2, y ! 0 * y ! 2]"

text \<open>
  Two matrix backends. In both, the difference of two columns raises \<^verbatim>\<open>ValueError\<close> when
  their lengths differ and the quotient by the scalar 0 raises \<^verbatim>\<open>ZeroDivisionError\<close>, as
  with \<^verbatim>\<open>mp.matrix\<close>. \<open>mpmath_backend\<close> is the default backend: \<^verbatim>\<open>mp.matrix\<close> has no
  method \<^verbatim>\<open>reshape\<close>, so that the call raises \<^verbatim>\<open>AttributeError\<close>. \<open>column_backend\<close> has
  the same arithmetic and a matrix class that can be reshaped into a column.
\<close>

definition mpmath_backend :: matrix_backend where
  "mpmath_backend =
     \<lparr>reshape_column = (\<lambda>x. Inl AttributeError),
      mat_sub = (\<lambda>a b. if length a \<noteq> length b then Inl ValueError
                        else Inr (map (\<lambda>(u, v). u - v) (zip a b))),
      mat_div = (\<lambda>a d. if d = 0 then Inl ZeroDivisionError else Inr (map (\<lambda>u. u / d) a))\<rparr>"

definition column_backend :: matrix_backend where
  "column_backend = mpmath_backend\<lparr>reshape_column := (\<lambda>x. Inr x)\<rparr>"

text \<open>
  Notions for the Newton iteration. A generator is \<open>live\<close> while it has neither returned
  nor set \<^verbatim>\<open>cancel\<close>; \<open>choice_at c\<close> is the constraint of the pass whose counter is \<open>c\<close>;
  \<open>visited x ts\<close> lists the points of a run, the starting point first and then the point
  of every yielded triple, so that the \<open>k\<close>-th triple was computed from \<open>visited x ts ! k\<close>
  and holds \<open>visited x ts ! Suc k\<close>.
\<close>

definition live :: "gen_state \<Rightarrow> bool" where
  "live st = (\<not> finished st \<and> \<not> cancel st)"

definition choice_at :: "nat \<Rightarrow> constraint_choice" where
  "choice_at c = (if c \<le> 5 then QuasiConstraint else RealConstraint)"

definition visited :: "real list \<Rightarrow> (real list \<times> real \<times> real list) list \<Rightarrow> real list list" where
  "visited x ts = x # map fst ts"

text \<open>
  Root finders of one equation in one unknown, whose points are tuples unless said
  otherwise. The linear solver divides by the single entry of the matrix and raises when
  it is 0. In \<open>example_newton\<close> the residual is \<open>x + 1\<close>, the line search always returns
  \<open>1/2\<close> and the real constraint clamps a negative coordinate to 0; \<open>singular_newton\<close> is
  the same with the Jacobian 0; \<open>tuple_start_newton\<close> starts at the root \<open>-1\<close>, and
  \<open>list_start_newton\<close> does so with a list for the starting point; \<open>drifting_newton\<close>
  has the constant residual 1, full steps and no constraint.
\<close>

definition example_Axb_solver :: "real list list \<Rightarrow> real list \<Rightarrow> error + real list" where
  "example_Axb_solver A b =
     (if A ! 0 ! 0 = 0 then Inl ZeroDivisionError else Inr [b ! 0 / A ! 0 ! 0])"

definition example_newton :: "unit newton_root" where
  "example_newton =
     \<lparr>nr_f = (\<lambda>x. [x ! 0 + 1]), nr_J = (\<lambda>ex x. [[1]]), nr_x0 = [0], x0_class = PyTuple,
      real_constraint = map (\<lambda>v. max v 0), constraint_class = (\<lambda>x. PyTuple),
      nr_norm = (\<lambda>v. \<bar>v ! 0\<bar>),
      Axb_solver = example_Axb_solver, dtheta_dt_expressions = Some (),
      golden = (\<lambda>fl. 1 / 2)\<rparr>"

definition singular_newton :: "unit newton_root" where
  "singular_newton = example_newton\<lparr>nr_J := (\<lambda>ex x. [[0]])\<rparr>"

definition tuple_start_newton :: "unit newton_root" where
  "tuple_start_newton = example_newton\<lparr>nr_x0 := [- 1]\<rparr>"

definition list_start_newton :: "unit newton_root" where
  "list_start_newton = example_newton\<lparr>nr_x0 := [- 1], x0_class := PyList\<rparr>"

definition drifting_newton :: "unit newton_root" where
  "drifting_newton =
     \<lparr>nr_f = (\<lambda>x. [1]), nr_J = (\<lambda>ex x. [[1]]), nr_x0 = [0], x0_class = PyTuple,
      real_constraint = (\<lambda>x. x), constraint_class = (\<lambda>x. PyTuple),
      nr_norm = (\<lambda>v. \<bar>v ! 0\<bar>),
      Axb_solver = example_Axb_solver, dtheta_dt_expressions = Some (),
      golden = (\<lambda>fl. 1)\<rparr>"




section \<open>Properties of the reaction energies and rate constants\<close>

lemma add_state_energy_ok:
  "species_of sp ts \<subseteq> dom En \<Longrightarrow>
   add_state_energy sp En G ts = Inr (G + weighted_sum sp En ts)"
proof (induction ts arbitrary: G)
  case Nil
  then show ?case by (simp add: weighted_sum_def)
next
  case (Cons t ts)
  obtain c n where spt: "sp t = (c, n)" by (cases "sp t")
  from Cons.prems spt obtain e where e: "En n = Some e"
    by (auto simp: species_of_def)
  from Cons.prems have "species_of sp ts \<subseteq> dom En" by (auto simp: species_of_def)
  from Cons.IH[OF this] have "add_state_energy sp En (G + of_int c * e) ts = Inr (G + of_int c * e + weighted_sum sp En ts)" .
  then show ?case using spt e by (simp add: weighted_sum_def)
qed

lemma add_state_energy_fail:
  "\<not> species_of sp ts \<subseteq> dom En \<Longrightarrow>
   \<exists>k. k \<in> species_of sp ts \<and> k \<notin> dom En \<and> add_state_energy sp En G ts = Inl (KeyError k)"
proof (induction ts arbitrary: G)
  case Nil
  then show ?case by (simp add: species_of_def)
next
  case (Cons t ts)
  obtain c n where spt: "sp t = (c, n)" by (cases "sp t")
  show ?case
  proof (cases "En n")
    case None
    then show ?thesis using spt by (auto simp: species_of_def intro!: exI[of _ n])
  next
    case (Some e)
    with Cons.prems spt have "\<not> species_of sp ts \<subseteq> dom En" by (auto simp: species_of_def)
    from Cons.IH[OF this, of "G + of_int c * e"] obtain k where
      "k \<in> species_of sp ts" "k \<notin> dom En" "add_state_energy sp En (G + of_int c * e) ts = Inl (KeyError k)" by blast
    then show ?thesis using spt Some by (auto simp: species_of_def)
  qed
qed

lemma py_max_eq_max: "py_max a b = max a b"
  by (simp add: py_max_def max_def)

lemma well_formed_rxn_states:
  assumes "well_formed_rxn rxn"
  shows "rxn \<noteq> []" and "hd rxn \<in> set rxn" and "last rxn \<in> set rxn"
    and "length rxn = 3 \<Longrightarrow> rxn ! 1 \<in> set rxn"
proof -
  from assms show ne: "rxn \<noteq> []" by (auto simp: well_formed_rxn_def)
  from ne show "hd rxn \<in> set rxn" by simp
  from ne show "last rxn \<in> set rxn" by simp
  show "length rxn = 3 \<Longrightarrow> rxn ! 1 \<in> set rxn" by simp
qed

lemma species_of_state_subset:
  "st \<in> set rxn \<Longrightarrow> rxn_species sp rxn \<subseteq> D \<Longrightarrow> species_of sp st \<subseteq> D"
  by (auto simp: rxn_species_def)

lemma get_state_energies_ok:
  assumes wf: "well_formed_rxn rxn" and sub: "rxn_species sp rxn \<subseteq> dom En"
  shows "get_state_energies sp En rxn = Inr (G_IS sp En rxn, G_TS sp En rxn, G_FS sp En rxn)"
proof -
  note st = well_formed_rxn_states[OF wf]
  have i: "add_state_energy sp En 0 (hd rxn) = Inr (G_IS sp En rxn)"
    using add_state_energy_ok[OF species_of_state_subset[OF st(2) sub], of 0]
    by (simp add: G_IS_def)
  have f: "add_state_energy sp En 0 (last rxn) = Inr (G_FS sp En rxn)"
    using add_state_energy_ok[OF species_of_state_subset[OF st(3) sub], of 0]
    by (simp add: G_FS_def)
  show ?thesis
  proof (cases "length rxn = 3")
    case True
    have "add_state_energy sp En 0 (rxn ! 1) = Inr (weighted_sum sp En (rxn ! 1))"
      using add_state_energy_ok[OF species_of_state_subset[OF st(4)[OF True] sub], of 0]
      by simp
    then show ?thesis using True i f st(1)
      by (simp add: get_state_energies_def G_TS_def)
  next
    case False
    with wf have "length rxn = 2" by (simp add: well_formed_rxn_def)
    then show ?thesis using i f st(1)
      by (simp add: get_state_energies_def G_TS_def py_max_eq_max)
  qed
qed

lemma get_state_energies_fail:
  assumes wf: "well_formed_rxn rxn" and nsub: "\<not> rxn_species sp rxn \<subseteq> dom En"
  shows "\<exists>k. k \<in> rxn_species sp rxn \<and> k \<notin> dom En \<and>
             get_state_energies sp En rxn = Inl (KeyError k)"
proof -
  note st = well_formed_rxn_states[OF wf]
  let ?I = "hd rxn" and ?F = "last rxn"
  show ?thesis
  proof (cases "species_of sp ?I \<subseteq> dom En")
    case False
    from add_state_energy_fail[OF False, of 0] obtain k where
      "k \<in> species_of sp ?I" "k \<notin> dom En" "add_state_energy sp En 0 ?I = Inl (KeyError k)"
      by blast
    then show ?thesis using st(1,2)
      by (auto simp: get_state_energies_def rxn_species_def)
  next
    case okI: True
    note i = add_state_energy_ok[OF okI, of 0]
    show ?thesis
    proof (cases "species_of sp ?F \<subseteq> dom En")
      case False
      from add_state_energy_fail[OF False, of 0] obtain k where
        "k \<in> species_of sp ?F" "k \<notin> dom En" "add_state_energy sp En 0 ?F = Inl (KeyError k)"
        by blast
      then show ?thesis using st(1,3) i
        by (auto simp: get_state_energies_def rxn_species_def)
    next
      case okF: True
      note f = add_state_energy_ok[OF okF, of 0]
      have len3: "length rxn = 3"
      proof (rule ccontr)
        assume "length rxn \<noteq> 3"
        with wf have "length rxn = 2" by (simp add: well_formed_rxn_def)
        then obtain a b where "rxn = [a, b]"
          by (cases rxn; cases "tl rxn"; auto)
        with okI okF nsub show False by (simp add: rxn_species_def)
      qed
      then obtain a b c where abc: "rxn = [a, b, c]"
        by (cases rxn; cases "tl rxn"; cases "tl (tl rxn)"; auto)
      with okI okF nsub have "\<not> species_of sp b \<subseteq> dom En"
        by (simp add: rxn_species_def)
      from add_state_energy_fail[OF this, of 0] obtain k where
        "k \<in> species_of sp b" "k \<notin> dom En" "add_state_energy sp En 0 b = Inl (KeyError k)"
        by blast
      then show ?thesis using abc i f
        by (auto simp: get_state_energies_def rxn_species_def)
    qed
  qed
qed

lemma get_reaction_energies_ok:
  "well_formed_rxn rxn \<Longrightarrow> rxn_species sp rxn \<subseteq> dom En \<Longrightarrow>
   get_reaction_energies sp En rxn = Inr (forward_barrier sp En rxn, reverse_barrier sp En rxn)"
  by (simp add: get_reaction_energies_def get_state_energies_ok forward_barrier_def
      reverse_barrier_def)

lemma get_reaction_energies_fail:
  assumes "well_formed_rxn rxn" and "\<not> rxn_species sp rxn \<subseteq> dom En"
  shows "\<exists>k. k \<in> rxn_species sp rxn \<and> k \<notin> dom En \<and>
             get_reaction_energies sp En rxn = Inl (KeyError k)"
proof -
  from get_state_energies_fail[OF assms] obtain k where
    "k \<in> rxn_species sp rxn" "k \<notin> dom En" "get_state_energies sp En rxn = Inl (KeyError k)"
    by blast
  then show ?thesis by (auto simp: get_reaction_energies_def)
qed

lemma rate_constant_ok:
  "k_B * T \<noteq> 0 \<Longrightarrow> rate_constant (k_B * T / hh) k_B T dG = Inr (eyring k_B hh T dG)"
  by (simp add: rate_constant_def py_div_def eyring_def)

lemma rate_constants_loop_ok:
  assumes kT: "k_B * T \<noteq> 0"
  shows "\<forall>rxn\<in>set rxns. well_formed_rxn rxn \<and> rxn_species sp rxn \<subseteq> dom En \<Longrightarrow>
    rate_constants_loop sp En (k_B * T / hh) k_B T rxns (a, b, c, d) =
      Inr (a @ map (forward_barrier sp En) rxns, b @ map (reverse_barrier sp En) rxns,
           c @ map (\<lambda>rxn. eyring k_B hh T (forward_barrier sp En rxn)) rxns,
           d @ map (\<lambda>rxn. eyring k_B hh T (reverse_barrier sp En rxn)) rxns)"
proof (induction rxns arbitrary: a b c d)
  case Nil
  then show ?case by simp
next
  case (Cons rxn rxns)
  then have ok: "well_formed_rxn rxn" "rxn_species sp rxn \<subseteq> dom En"
    and rest: "\<forall>r\<in>set rxns. well_formed_rxn r \<and> rxn_species sp r \<subseteq> dom En"
    by simp_all
  show ?case
    by (simp add: get_reaction_energies_ok[OF ok] rate_constant_ok[OF kT] Cons.IH[OF rest])
qed

lemma rate_constants_loop_fail:
  assumes kT: "k_B * T \<noteq> 0"
  shows "\<forall>rxn\<in>set rxns. well_formed_rxn rxn \<Longrightarrow>
    \<not> network_species sp rxns \<subseteq> dom En \<Longrightarrow>
    \<exists>k. k \<in> network_species sp rxns \<and> k \<notin> dom En \<and>
        rate_constants_loop sp En (k_B * T / hh) k_B T rxns (a, b, c, d) = Inl (KeyError k)"
proof (induction rxns arbitrary: a b c d)
  case Nil
  then show ?case by (simp add: network_species_def)
next
  case (Cons rxn rxns)
  then have wf: "well_formed_rxn rxn" and wfs: "\<forall>r\<in>set rxns. well_formed_rxn r"
    by simp_all
  show ?case
  proof (cases "rxn_species sp rxn \<subseteq> dom En")
    case False
    from get_reaction_energies_fail[OF wf False] obtain k where
      "k \<in> rxn_species sp rxn" "k \<notin> dom En"
      "get_reaction_energies sp En rxn = Inl (KeyError k)" by blast
    then show ?thesis by (auto simp: network_species_def)
  next
    case True
    with Cons.prems(2) have "\<not> network_species sp rxns \<subseteq> dom En"
      by (auto simp: network_species_def)
    from Cons.IH[OF wfs this] obtain k where
      k: "k \<in> network_species sp rxns" "k \<notin> dom En" and
      "rate_constants_loop sp En (k_B * T / hh) k_B T rxns
         (a @ [forward_barrier sp En rxn], b @ [reverse_barrier sp En rxn],
          c @ [eyring k_B hh T (forward_barrier sp En rxn)],
          d @ [eyring k_B hh T (reverse_barrier sp En rxn)]) = Inl (KeyError k)"
      by blast
    then have "rate_constants_loop sp En (k_B * T / hh) k_B T (rxn # rxns) (a, b, c, d) =
        Inl (KeyError k)"
      by (simp add: get_reaction_energies_ok[OF wf True] rate_constant_ok[OF kT])
    with k show ?thesis by (auto simp: network_species_def)
  qed
qed

lemma get_rate_constants_ok:
  assumes "h_planck (owner s) \<noteq> 0" and "kB (owner s) * temperature (owner s) \<noteq> 0"
    and "\<forall>rxn\<in>set (rxns_list s). well_formed_rxn rxn"
    and "network_species sp (rxns_list s) \<subseteq> dom (E s)"
  shows "get_rate_constants sp s =
    (Inr (map (\<lambda>rxn. eyring (kB (owner s)) (h_planck (owner s)) (temperature (owner s))
                  (forward_barrier sp (E s) rxn)) (rxns_list s),
          map (\<lambda>rxn. eyring (kB (owner s)) (h_planck (owner s)) (temperature (owner s))
                  (reverse_barrier sp (E s) rxn)) (rxns_list s)),
     s\<lparr>Gaf := map (forward_barrier sp (E s)) (rxns_list s),
       Gar := map (reverse_barrier sp (E s)) (rxns_list s),
       kfs := map (\<lambda>rxn. eyring (kB (owner s)) (h_planck (owner s)) (temperature (owner s))
                  (forward_barrier sp (E s) rxn)) (rxns_list s),
       krs := map (\<lambda>rxn. eyring (kB (owner s)) (h_planck (owner s)) (temperature (owner s))
                  (reverse_barrier sp (E s) rxn)) (rxns_list s)\<rparr>)"
proof -
  have "\<forall>rxn\<in>set (rxns_list s). well_formed_rxn rxn \<and> rxn_species sp rxn \<subseteq> dom (E s)"
    using assms(3,4) by (auto simp: network_species_def)
  from rate_constants_loop_ok[OF assms(2) this, of "h_planck (owner s)" "[]" "[]" "[]" "[]"]
  show ?thesis using assms(1)
    by (simp add: get_rate_constants_def py_div_def Let_def)
qed

lemmas example_defs = example_solver_def example_model_def example_rxns_def example_E_def
  split_species_def is_digit_def digit_value_def

text \<open>
  Claim C1. For a network whose reactions have two or three states and whose species all
  have a free energy, with \<open>h\<close> and \<open>kB T\<close> not zero, \<^verbatim>\<open>get_rate_constants\<close> returns for
  every reaction the forward rate constant \<open>(kB T / h) exp (- (G_TS - G_IS) / (kB T))\<close> and
  the reverse rate constant \<open>(kB T / h) exp (- (G_TS - G_FS) / (kB T))\<close>, where \<open>G_IS\<close>,
  \<open>G_TS\<close>, \<open>G_FS\<close> are the stoichiometry-weighted sums of the free energies of the
  states; and the stored forward barrier minus the stored reverse barrier is
  \<open>G_FS - G_IS\<close> for every reaction, so also for those with an explicit transition state.
\<close>

theorem rate_constants_eyring:
  assumes "h_planck (owner s) \<noteq> 0" and "kB (owner s) * temperature (owner s) \<noteq> 0"
    and "\<forall>rxn\<in>set (rxns_list s). well_formed_rxn rxn"
    and "network_species sp (rxns_list s) \<subseteq> dom (E s)"
  shows "fst (get_rate_constants sp s) =
      Inr (map (\<lambda>rxn. eyring (kB (owner s)) (h_planck (owner s)) (temperature (owner s))
                  (G_TS sp (E s) rxn - G_IS sp (E s) rxn)) (rxns_list s),
           map (\<lambda>rxn. eyring (kB (owner s)) (h_planck (owner s)) (temperature (owner s))
                  (G_TS sp (E s) rxn - G_FS sp (E s) rxn)) (rxns_list s))
    \<and> (\<forall>i<length (rxns_list s).
          Gaf (snd (get_rate_constants sp s)) ! i - Gar (snd (get_rate_constants sp s)) ! i =
          G_FS sp (E s) (rxns_list s ! i) - G_IS sp (E s) (rxns_list s ! i))"
  using get_rate_constants_ok[OF assms]
  by (simp add: forward_barrier_def reverse_barrier_def)

theorem rate_constants_eyring_witness:
  "fst (get_rate_constants split_species example_solver) =
      Inr ([eyring (1 / 2) 1 2 0, eyring (1 / 2) 1 2 2],
           [eyring (1 / 2) 1 2 (3 / 2), eyring (1 / 2) 1 2 (3 / 2)])
   \<and> Gaf (snd (get_rate_constants split_species example_solver)) ! 1
     - Gar (snd (get_rate_constants split_species example_solver)) ! 1 = 1 / 2"
proof -
  have hyps: "h_planck (owner example_solver) \<noteq> 0"
    "kB (owner example_solver) * temperature (owner example_solver) \<noteq> 0"
    "\<forall>rxn\<in>set (rxns_list example_solver). well_formed_rxn rxn"
    "network_species split_species (rxns_list example_solver) \<subseteq> dom (E example_solver)"
    by (simp_all add: example_defs well_formed_rxn_def network_species_def rxn_species_def
        species_of_def)
  have vals: "G_IS split_species example_E (example_rxns ! 0) = 0"
    "G_TS split_species example_E (example_rxns ! 0) = 0"
    "G_FS split_species example_E (example_rxns ! 0) = - 3 / 2"
    "G_IS split_species example_E (example_rxns ! 1) = - 5 / 2"
    "G_TS split_species example_E (example_rxns ! 1) = - 1 / 2"
    "G_FS split_species example_E (example_rxns ! 1) = - 2"
    by (simp_all add: G_IS_def G_TS_def G_FS_def weighted_sum_def example_defs)
  from rate_constants_eyring[OF hyps] vals show ?thesis
    by (simp add: example_solver_def example_model_def example_rxns_def)
qed

lemma eyring_ratio:
  assumes "hh \<noteq> 0" and "k_B * T \<noteq> 0"
  shows "eyring k_B hh T (ts - i) / eyring k_B hh T (ts - f) = exp ((i - f) / (k_B * T))"
proof -
  have "eyring k_B hh T (ts - i) / eyring k_B hh T (ts - f)
        = exp (- (ts - i) / (k_B * T)) / exp (- (ts - f) / (k_B * T))"
    using assms by (simp add: eyring_def)
  also have "\<dots> = exp (- (ts - i) / (k_B * T) - (- (ts - f) / (k_B * T)))"
    by (simp only: exp_diff)
  also have "- (ts - i) / (k_B * T) - (- (ts - f) / (k_B * T)) = (i - f) / (k_B * T)"
    using assms(2) by (simp add: field_simps)
  finally show ?thesis .
qed

text \<open>
  Claim C2, as amended. Under the hypotheses of C1 the quotient of the forward by the
  reverse rate constant of every reaction is \<open>exp ((G_IS - G_FS) / (kB T))\<close>, that is
  \<open>exp (- (G_FS - G_IS) / (kB T))\<close>: the sign of the exponent is the opposite of the one
  in the claim.
\<close>

theorem rate_constant_ratio:
  assumes "h_planck (owner s) \<noteq> 0" and "kB (owner s) * temperature (owner s) \<noteq> 0"
    and "\<forall>rxn\<in>set (rxns_list s). well_formed_rxn rxn"
    and "network_species sp (rxns_list s) \<subseteq> dom (E s)"
  shows "\<exists>kfl krl. fst (get_rate_constants sp s) = Inr (kfl, krl) \<and>
     length kfl = length (rxns_list s) \<and> length krl = length (rxns_list s) \<and>
     (\<forall>i<length (rxns_list s).
        kfl ! i / krl ! i =
        exp ((G_IS sp (E s) (rxns_list s ! i) - G_FS sp (E s) (rxns_list s ! i))
             / (kB (owner s) * temperature (owner s))))"
  using get_rate_constants_ok[OF assms] eyring_ratio[OF assms(1,2)]
  by (simp add: forward_barrier_def reverse_barrier_def)

text \<open>
  Claim C2 as stated fails on the adsorption step \<^verbatim>\<open>CO_g + *_s -> CO_s\<close> of the concrete
  network, where \<open>G_IS = 0\<close>, \<open>G_FS = - 3/2\<close> and \<open>kB T = 1\<close>: the rate constants are
  \<open>kf = 1\<close> and \<open>kr = exp (- 3/2)\<close>, so \<open>kf / kr = exp (3/2)\<close>, while the claim gives
  \<open>exp (- 3/2)\<close>.
\<close>

theorem rate_constant_ratio_counterexample:
  "fst (get_rate_constants split_species example_solver) =
     Inr ([1, exp (- 2)], [exp (- (3 / 2)), exp (- (3 / 2))])
   \<and> 1 / exp (- (3 / 2)) \<noteq>
     exp ((G_FS split_species (E example_solver) (rxns_list example_solver ! 0)
           - G_IS split_species (E example_solver) (rxns_list example_solver ! 0))
          / (kB (owner example_solver) * temperature (owner example_solver)))"
proof -
  have v: "fst (get_rate_constants split_species example_solver) =
     Inr ([1, exp (- 2)], [exp (- (3 / 2)), exp (- (3 / 2))])"
    by (simp add: get_rate_constants_def get_reaction_energies_def get_state_energies_def
        rate_constant_def py_div_def py_max_def example_defs Let_def)
  have g: "G_FS split_species (E example_solver) (rxns_list example_solver ! 0)
           - G_IS split_species (E example_solver) (rxns_list example_solver ! 0) = - (3 / 2)"
    by (simp add: G_IS_def G_FS_def weighted_sum_def example_defs)
  have "1 / exp (- (3 / 2) :: real) = exp (3 / 2)"
    by (simp add: exp_minus field_simps)
  moreover have "exp (3 / 2 :: real) \<noteq> exp (- (3 / 2))"
    by simp
  ultimately show ?thesis using v g
    by (simp add: example_solver_def example_model_def)
qed

theorem rate_constant_ratio_witness:
  "\<exists>kfl krl. fst (get_rate_constants split_species example_solver) = Inr (kfl, krl) \<and>
     kfl ! 0 / krl ! 0 = exp (3 / 2) \<and> kfl ! 1 / krl ! 1 = exp (- (1 / 2))"
proof -
  have hyps: "h_planck (owner example_solver) \<noteq> 0"
    "kB (owner example_solver) * temperature (owner example_solver) \<noteq> 0"
    "\<forall>rxn\<in>set (rxns_list example_solver). well_formed_rxn rxn"
    "network_species split_species (rxns_list example_solver) \<subseteq> dom (E example_solver)"
    by (simp_all add: example_defs well_formed_rxn_def network_species_def rxn_species_def
        species_of_def)
  have vals: "G_IS split_species example_E (example_rxns ! 0) = 0"
    "G_FS split_species example_E (example_rxns ! 0) = - 3 / 2"
    "G_IS split_species example_E (example_rxns ! 1) = - 5 / 2"
    "G_FS split_species example_E (example_rxns ! 1) = - 2"
    by (simp_all add: G_IS_def G_FS_def weighted_sum_def example_defs)
  from rate_constant_ratio[OF hyps] obtain kfl krl where
    r: "fst (get_rate_constants split_species example_solver) = Inr (kfl, krl)" and
    q: "\<forall>i<length (rxns_list example_solver).
        kfl ! i / krl ! i =
        exp ((G_IS split_species (E example_solver) (rxns_list example_solver ! i)
              - G_FS split_species (E example_solver) (rxns_list example_solver ! i))
             / (kB (owner example_solver) * temperature (owner example_solver)))"
    by blast
  have len: "length (rxns_list example_solver) = 2"
    by (simp add: example_solver_def example_rxns_def)
  from q len have "kfl ! 0 / krl ! 0 = exp (3 / 2)"
    using vals by (simp add: example_solver_def example_model_def)
  moreover from q len have "kfl ! 1 / krl ! 1 = exp (- (1 / 2))"
    using vals by (simp add: example_solver_def example_model_def)
  ultimately show ?thesis using r by blast
qed

text \<open>
  Claim C7. When some species of a network of two- or three-state reactions has no entry
  in the free-energy mapping, \<^verbatim>\<open>get_rate_constants\<close> raises the \<^verbatim>\<open>KeyError\<close> of the
  dictionary lookup for a species that has no entry and leaves the solver as it was;
  \<^verbatim>\<open>get_reaction_energies\<close> does so for every reaction that mentions such a species. The
  exception class of the code is Python's \<^verbatim>\<open>KeyError\<close>; it is what the specification
  calls \<^verbatim>\<open>MissingEnergyError\<close>.
\<close>

theorem missing_energy_raises:
  assumes "h_planck (owner s) \<noteq> 0" and "kB (owner s) * temperature (owner s) \<noteq> 0"
    and "\<forall>rxn\<in>set (rxns_list s). well_formed_rxn rxn"
    and "\<not> network_species sp (rxns_list s) \<subseteq> dom (E s)"
  shows "(\<exists>k. k \<in> network_species sp (rxns_list s) \<and> k \<notin> dom (E s) \<and>
              get_rate_constants sp s = (Inl (KeyError k), s))
    \<and> (\<forall>rxn\<in>set (rxns_list s). \<not> rxn_species sp rxn \<subseteq> dom (E s) \<longrightarrow>
          (\<exists>k. k \<in> rxn_species sp rxn \<and> k \<notin> dom (E s) \<and>
               get_reaction_energies sp (E s) rxn = Inl (KeyError k)))"
proof
  from rate_constants_loop_fail[OF assms(2,3,4), of "h_planck (owner s)" "[]" "[]" "[]" "[]"]
  obtain k where k: "k \<in> network_species sp (rxns_list s)" "k \<notin> dom (E s)" and
    "rate_constants_loop sp (E s) (kB (owner s) * temperature (owner s) / h_planck (owner s))
       (kB (owner s)) (temperature (owner s)) (rxns_list s) ([], [], [], []) = Inl (KeyError k)"
    by blast
  then have "get_rate_constants sp s = (Inl (KeyError k), s)"
    using assms(1) by (simp add: get_rate_constants_def py_div_def Let_def)
  with k show "\<exists>k. k \<in> network_species sp (rxns_list s) \<and> k \<notin> dom (E s) \<and>
              get_rate_constants sp s = (Inl (KeyError k), s)" by blast
next
  show "\<forall>rxn\<in>set (rxns_list s). \<not> rxn_species sp rxn \<subseteq> dom (E s) \<longrightarrow>
          (\<exists>k. k \<in> rxn_species sp rxn \<and> k \<notin> dom (E s) \<and>
               get_reaction_energies sp (E s) rxn = Inl (KeyError k))"
    using assms(3) get_reaction_energies_fail by blast
qed


theorem missing_energy_raises_witness:
  "(\<exists>k. k \<notin> dom (E example_solver_missing) \<and>
        get_rate_constants split_species example_solver_missing =
          (Inl (KeyError k), example_solver_missing))
   \<and> get_rate_constants split_species example_solver_missing =
       (Inl (KeyError ''CO-O_s''), example_solver_missing)"
proof -
  have hyps: "h_planck (owner example_solver_missing) \<noteq> 0"
    "kB (owner example_solver_missing) * temperature (owner example_solver_missing) \<noteq> 0"
    "\<forall>rxn\<in>set (rxns_list example_solver_missing). well_formed_rxn rxn"
    by (simp_all add: example_solver_missing_def example_defs well_formed_rxn_def)
  have nsub: "\<not> network_species split_species (rxns_list example_solver_missing)
        \<subseteq> dom (E example_solver_missing)"
    by (simp add: example_solver_missing_def example_defs
        network_species_def rxn_species_def species_of_def)
  have ev: "get_rate_constants split_species example_solver_missing =
     (Inl (KeyError ''CO-O_s''), example_solver_missing)"
    by (simp add: get_rate_constants_def get_reaction_energies_def get_state_energies_def
        rate_constant_def py_div_def py_max_def example_solver_missing_def example_defs Let_def)
  from missing_energy_raises[OF hyps nsub] ev show ?thesis by blast
qed

section \<open>Properties of the Boltzmann coverages\<close>









section \<open>The frame of the turnover-frequency driver\<close>

lemma overwrite_energies_eq:
  "overwrite_energies En kvs = En ++ map_of (rev kvs)"
proof (induction kvs arbitrary: En)
  case Nil
  then show ?case by simp
next
  case (Cons kv kvs)
  obtain k v where kv: "kv = (k, v)" by (cases kv)
  have "overwrite_energies En (kv # kvs) = overwrite_energies (En(k \<mapsto> v)) kvs"
    unfolding kv by (simp only: overwrite_energies.simps)
  also have "\<dots> = En(k \<mapsto> v) ++ map_of (rev kvs)"
    by (rule Cons.IH)
  also have "\<dots> = En ++ map_of (rev (kv # kvs))"
    unfolding kv by (auto simp add: map_add_def fun_eq_iff split: option.splits)
  finally show ?case .
qed

lemma overwrite_energies_other:
  "k \<notin> fst ` set kvs \<Longrightarrow> overwrite_energies En kvs k = En k"
  by (simp add: overwrite_energies_eq map_add_def map_of_eq_None_iff[THEN iffD2] split: option.splits)

lemma overwrite_energies_nth:
  assumes "length Gs = length order" and "distinct order" and "i < length order"
  shows "overwrite_energies En (zip order Gs) (order ! i) = Some (Gs ! i)"
proof -
  have d: "distinct (map fst (rev (zip order Gs)))"
    using assms(1,2) by (simp add: rev_map[symmetric] distinct_rev)
  have "(order ! i, Gs ! i) \<in> set (rev (zip order Gs))"
    using assms(1,3) by (auto simp: set_zip)
  with d have "map_of (rev (zip order Gs)) (order ! i) = Some (Gs ! i)"
    by (rule map_of_is_SomeI)
  then show ?thesis by (simp add: overwrite_energies_eq)
qed

lemma E_get_rate_constants: "E (snd (get_rate_constants sp s)) = E s"
  by (simp add: get_rate_constants_def Let_def split: sum.splits prod.splits)

lemma E_get_rates: "E (snd (get_rates sp env cvgs s)) = E s"
  using E_get_rate_constants[of sp s]
  by (auto simp add: get_rates_def Let_def split: sum.splits prod.splits)

lemma E_get_net_rates: "E (snd (get_net_rates rfs rrs s)) = E s"
  by (simp add: get_net_rates_def Let_def)

lemma E_get_tof:
  "E (snd (get_tof sp env Gs s)) =
     overwrite_energies (E s)
       (zip (adsorbate_names (owner s) @ transition_state_names (owner s)) Gs)"
proof -
  let ?order = "adsorbate_names (owner s) @ transition_state_names (owner s)"
  let ?s2 = "s\<lparr>Gs_order := ?order, E := overwrite_energies (E s) (zip ?order Gs)\<rparr>"
  obtain r3 s3 where g: "get_rate_constants sp ?s2 = (r3, s3)" by (cases "get_rate_constants sp ?s2")
  have e3: "E s3 = E ?s2" using E_get_rate_constants[of sp ?s2] g by simp
  show ?thesis
  proof (cases r3)
    case (Inl e)
    with g e3 show ?thesis by (simp add: get_tof_def Let_def)
  next
    case (Inr kk)
    show ?thesis
    proof (cases "get_steady_state_cvgs env s3 (initial_guess env)")
      case (Inl e)
      with g e3 Inr show ?thesis by (simp add: get_tof_def Let_def)
    next
      case cv: (Inr cvg)
      obtain r4 s4 where g4: "get_rates sp env cvg s3 = (r4, s4)" by (cases "get_rates sp env cvg s3")
      have e4: "E s4 = E s3" using E_get_rates[of sp env cvg s3] g4 by simp
      show ?thesis
      proof (cases r4)
        case (Inl e)
        with g e3 Inr cv g4 e4 show ?thesis by (simp add: get_tof_def Let_def)
      next
        case rr: (Inr rfrr)
        obtain rfs rrs where rf: "rfrr = (rfs, rrs)" by (cases rfrr)
        obtain nr s5 where g5: "get_net_rates rfs rrs s4 = (nr, s5)" by (cases "get_net_rates rfs rrs s4")
        have e5: "E s5 = E s4" using E_get_net_rates[of rfs rrs s4] g5 by simp
        show ?thesis using g e3 Inr cv g4 e4 rr rf g5 e5
          by (simp add: get_tof_def Let_def split: sum.splits)
      qed
    qed
  qed
qed

text \<open>
  Claim C9. Let the vector \<open>Gs\<close> have one value per name of
  \<^verbatim>\<open>adsorbate_names + transition_state_names\<close>, the names being distinct. In the solver
  that \<^verbatim>\<open>get_tof\<close> leaves, whether it returns or raises, the free energy of the \<open>i\<close>-th
  name is the \<open>i\<close>-th value of \<open>Gs\<close>, and the entry of every other key is the one from
  before the call: nothing is restored and nothing else is written.
\<close>

theorem get_tof_overwrites_energies:
  assumes "length Gs = length (adsorbate_names (owner s) @ transition_state_names (owner s))"
    and "distinct (adsorbate_names (owner s) @ transition_state_names (owner s))"
  shows "(\<forall>i<length (adsorbate_names (owner s) @ transition_state_names (owner s)).
            E (snd (get_tof sp env Gs s))
              ((adsorbate_names (owner s) @ transition_state_names (owner s)) ! i) = Some (Gs ! i))
    \<and> (\<forall>k. k \<notin> set (adsorbate_names (owner s) @ transition_state_names (owner s)) \<longrightarrow>
            E (snd (get_tof sp env Gs s)) k = E s k)"
proof -
  let ?order = "adsorbate_names (owner s) @ transition_state_names (owner s)"
  have other: "\<And>k. k \<notin> set ?order \<Longrightarrow> overwrite_energies (E s) (zip ?order Gs) k = E s k"
  proof -
    fix k assume "k \<notin> set ?order"
    then have "k \<notin> fst ` set (zip ?order Gs)" by (auto dest: set_zip_leftD)
    then show "overwrite_energies (E s) (zip ?order Gs) k = E s k"
      by (rule overwrite_energies_other)
  qed
  show ?thesis
    using overwrite_energies_nth[OF assms] other
    by (simp only: E_get_tof) blast
qed

theorem get_tof_overwrites_energies_witness:
  "E (snd (get_tof split_species example_env [- 1, - 2, - 3] example_solver)) ''CO_s'' = Some (- 1)
   \<and> E (snd (get_tof split_species example_env [- 1, - 2, - 3] example_solver)) ''O_s'' = Some (- 2)
   \<and> E (snd (get_tof split_species example_env [- 1, - 2, - 3] example_solver)) ''CO-O_s'' = Some (- 3)
   \<and> E (snd (get_tof split_species example_env [- 1, - 2, - 3] example_solver)) ''CO2_g'' = Some (- 2)"
proof -
  have order: "adsorbate_names (owner example_solver) @ transition_state_names (owner example_solver)
      = [''CO_s'', ''O_s'', ''CO-O_s'']"
    by (simp add: example_defs)
  have hyps: "length [- 1, - 2, - 3 :: real] =
      length (adsorbate_names (owner example_solver) @ transition_state_names (owner example_solver))"
    "distinct (adsorbate_names (owner example_solver) @ transition_state_names (owner example_solver))"
    by (simp_all add: order)
  have old: "E example_solver ''CO2_g'' = Some (- 2)"
    by (simp add: example_defs)
  note t = get_tof_overwrites_energies[OF hyps, of split_species example_env, unfolded order]
  from t have a: "\<forall>i<3. E (snd (get_tof split_species example_env [- 1, - 2, - 3] example_solver))
              ([''CO_s'', ''O_s'', ''CO-O_s''] ! i) = Some ([- 1, - 2, - 3] ! i)"
    by simp
  from t have b: "''CO2_g'' \<notin> set [''CO_s'', ''O_s'', ''CO-O_s''] \<longrightarrow>
      E (snd (get_tof split_species example_env [- 1, - 2, - 3] example_solver)) ''CO2_g''
        = E example_solver ''CO2_g''"
    by blast
  from a[rule_format, of 0] a[rule_format, of 1] a[rule_format, of 2] b old
  show ?thesis by simp
qed

section \<open>Properties of the classified numerical Jacobian\<close>

lemma store_column_ok:
  "\<forall>i\<in>set rows. i < length Jj \<Longrightarrow>
   \<exists>R. store_column Jm j Jj rows = Inr R \<and> length R = length Jm \<and>
       (\<forall>i<length Jm. R ! i = (if i \<in> set rows then (Jm ! i)[j := Jj ! i] else Jm ! i))"
proof (induction rows arbitrary: Jm)
  case Nil
  then show ?case by simp
next
  case (Cons r rows)
  let ?Jm' = "Jm[r := (Jm ! r)[j := Jj ! r]]"
  have r: "r < length Jj" and rest: "\<forall>i\<in>set rows. i < length Jj"
    using Cons.prems by simp_all
  from Cons.IH[OF rest, of ?Jm'] obtain R where
    R: "store_column ?Jm' j Jj rows = Inr R" "length R = length ?Jm'"
       "\<forall>i<length ?Jm'. R ! i = (if i \<in> set rows then (?Jm' ! i)[j := Jj ! i] else ?Jm' ! i)"
    by blast
  have unf: "store_column Jm j Jj (r # rows) = Inr R"
    using r R(1) by simp
  have "\<forall>i<length Jm. R ! i = (if i \<in> set (r # rows) then (Jm ! i)[j := Jj ! i] else Jm ! i)"
  proof (intro allI impI)
    fix i assume i: "i < length Jm"
    then have Ri: "R ! i = (if i \<in> set rows then (?Jm' ! i)[j := Jj ! i] else ?Jm' ! i)"
      using R(3) by simp
    show "R ! i = (if i \<in> set (r # rows) then (Jm ! i)[j := Jj ! i] else Jm ! i)"
    proof (cases "i = r")
      case True
      then have "?Jm' ! i = (Jm ! i)[j := Jj ! i]" using i by simp
      with Ri True show ?thesis by simp
    next
      case False
      then have "?Jm' ! i = Jm ! i" by simp
      with Ri False show ?thesis by simp
    qed
  qed
  with unf R(2) show ?case by simp
qed

lemma step_size_eq: "step_size h xj = max \<bar>h * xj\<bar> h"
  by (simp add: step_size_def py_max_eq_max)

lemma step_size_pos: "0 < h \<Longrightarrow> 0 < step_size h xj"
  by (simp add: step_size_eq less_max_iff_disj)

lemma difference_column:
  assumes sub: "\<forall>a b. length a = length b \<longrightarrow>
                  mat_sub ops a b = Inr (map (\<lambda>(u, v). u - v) (zip a b))"
    and dv: "\<forall>a d. d \<noteq> 0 \<longrightarrow> mat_div ops a d = Inr (map (\<lambda>u. u / d) a)"
    and len: "length fy = length fx" and d: "d \<noteq> 0"
  shows "(case mat_sub ops fy fx of Inl e \<Rightarrow> Inl e | Inr v \<Rightarrow> mat_div ops v d) =
     Inr (map (\<lambda>i. (fy ! i - fx ! i) / d) [0..<length fx])"
proof -
  have e: "map (\<lambda>u. u / d) (map (\<lambda>(u, v). u - v) (zip fy fx))
        = map (\<lambda>i. (fy ! i - fx ! i) / d) [0..<length fx]"
    using len by (intro nth_equalityI) simp_all
  have s: "mat_sub ops fy fx = Inr (map (\<lambda>(u, v). u - v) (zip fy fx))"
    using sub[rule_format, OF len] .
  have q: "mat_div ops (map (\<lambda>(u, v). u - v) (zip fy fx)) d
      = Inr (map (\<lambda>u. u / d) (map (\<lambda>(u, v). u - v) (zip fy fx)))"
    using dv[rule_format, OF d] .
  show ?thesis by (simp only: s q e sum.case)
qed

lemma jacobian_column_ok:
  assumes sub: "\<forall>a b. length a = length b \<longrightarrow>
                  mat_sub ops a b = Inr (map (\<lambda>(u, v). u - v) (zip a b))"
    and dv: "\<forall>a d. d \<noteq> 0 \<longrightarrow> mat_div ops a d = Inr (map (\<lambda>u. u / d) a)"
    and h: "0 < h"
    and len: "\<forall>y. length y = length x \<longrightarrow> length (f y) = length (f x)"
  shows "jacobian_column ops f x h inter_num (f x) j =
    Inr (map (\<lambda>i. difference_quotient f x j
                 (if j < inter_num then max \<bar>h * x ! j\<bar> h else - max \<bar>h * x ! j\<bar> h) i)
           [0..<length (f x)])"
proof -
  let ?d = "max \<bar>h * x ! j\<bar> h"
  have d: "?d \<noteq> 0" using step_size_pos[OF h, of "x ! j"] by (simp add: step_size_eq)
  have md: "- ?d \<noteq> 0" using d by simp
  have cond: "(int j \<le> int inter_num - 1) = (j < inter_num)" by auto
  have lp: "length (f (x[j := x ! j + ?d])) = length (f x)"
    using len[rule_format, of "x[j := x ! j + ?d]"] by simp
  have lm: "length (f (x[j := x ! j - ?d])) = length (f x)"
    using len[rule_format, of "x[j := x ! j - ?d]"] by simp
  show ?thesis
  proof (cases "j < inter_num")
    case True
    have "jacobian_column ops f x h inter_num (f x) j =
        (case mat_sub ops (f (x[j := x ! j + ?d])) (f x) of
           Inl e \<Rightarrow> Inl e | Inr v \<Rightarrow> mat_div ops v ?d)"
      using True by (simp only: jacobian_column_def cond step_size_eq Let_def if_True)
    also note difference_column[OF sub dv lp d]
    finally show ?thesis using True by (simp add: difference_quotient_def)
  next
    case False
    have "jacobian_column ops f x h inter_num (f x) j =
        (case mat_sub ops (f (x[j := x ! j - ?d])) (f x) of
           Inl e \<Rightarrow> Inl e | Inr v \<Rightarrow> mat_div ops v (- ?d))"
      using False by (simp only: jacobian_column_def cond step_size_eq Let_def if_False)
    also note difference_column[OF sub dv lm md]
    finally show ?thesis using False by (simp add: difference_quotient_def)
  qed
qed

lemma jacobian_loop_ok:
  assumes cols: "\<forall>j\<in>set js. jacobian_column ops f x h inter_num fx j = Inr (C j)
                   \<and> length (C j) = length fx"
    and lenJ: "length Jm = length fx"
  shows "\<exists>R. jacobian_loop ops f x h inter_num fx js Jm = Inr R \<and> length R = length fx \<and>
     (\<forall>i<length fx. length (R ! i) = length (Jm ! i) \<and>
        (\<forall>j<length (Jm ! i). R ! i ! j = (if j \<in> set js then C j ! i else Jm ! i ! j)))"
  using cols lenJ
proof (induction js arbitrary: Jm)
  case Nil
  then show ?case by simp
next
  case (Cons j js)
  have c: "jacobian_column ops f x h inter_num fx j = Inr (C j)"
    and lc: "length (C j) = length fx" using Cons.prems(1) by simp_all
  have rest: "\<forall>j\<in>set js. jacobian_column ops f x h inter_num fx j = Inr (C j)
                \<and> length (C j) = length fx"
    using Cons.prems(1) by simp
  have "\<forall>i\<in>set [0..<length fx]. i < length (C j)" using lc by simp
  from store_column_ok[OF this, of Jm j] obtain Jm' where
    st: "store_column Jm j (C j) [0..<length fx] = Inr Jm'" "length Jm' = length Jm"
        "\<forall>i<length Jm. Jm' ! i =
           (if i \<in> set [0..<length fx] then (Jm ! i)[j := C j ! i] else Jm ! i)"
    by blast
  have len': "length Jm' = length fx" using st(2) Cons.prems(2) by simp
  have row: "\<And>i. i < length fx \<Longrightarrow> Jm' ! i = (Jm ! i)[j := C j ! i]"
    using st(3) Cons.prems(2) by simp
  from Cons.IH[OF rest len'] obtain R where
    R: "jacobian_loop ops f x h inter_num fx js Jm' = Inr R" "length R = length fx"
       "\<forall>i<length fx. length (R ! i) = length (Jm' ! i) \<and>
        (\<forall>k<length (Jm' ! i). R ! i ! k = (if k \<in> set js then C k ! i else Jm' ! i ! k))"
    by blast
  have "jacobian_loop ops f x h inter_num fx (j # js) Jm = Inr R"
    using c st(1) R(1) by simp
  moreover have "\<forall>i<length fx. length (R ! i) = length (Jm ! i) \<and>
        (\<forall>k<length (Jm ! i). R ! i ! k = (if k \<in> set (j # js) then C k ! i else Jm ! i ! k))"
  proof (intro allI impI)
    fix i assume i: "i < length fx"
    from R(3) i have a: "length (R ! i) = length (Jm' ! i)"
      and b: "\<forall>k<length (Jm' ! i). R ! i ! k = (if k \<in> set js then C k ! i else Jm' ! i ! k)"
      by blast+
    show "length (R ! i) = length (Jm ! i) \<and>
        (\<forall>k<length (Jm ! i). R ! i ! k = (if k \<in> set (j # js) then C k ! i else Jm ! i ! k))"
      using a b by (auto simp add: row[OF i] nth_list_update)
  qed
  ultimately show ?case using R(2) by blast
qed

text \<open>
  Claim C8. Let the backend reshape the point into the column of its coordinates, subtract
  columns of one length item by item and divide a column by a scalar other than 0 item by
  item; let the minimum step \<open>h\<close> be positive and the values of \<open>f\<close> all have the length of
  \<open>f x\<close>. Then \<^verbatim>\<open>classified_numerical_jacobian\<close> returns a matrix whose entry \<open>(i, j)\<close> is
  a one-sided difference quotient with the step \<open>delta = max \<bar>h * x\<^sub>j\<bar> h\<close>: the coordinate
  \<open>j\<close> is moved forward to \<open>x\<^sub>j + delta\<close> when \<open>j\<close> is below the number of adsorbates, and
  backward to \<open>x\<^sub>j - delta\<close>, with the quotient taken by \<open>- delta\<close>, otherwise.
\<close>

theorem classified_numerical_jacobian_directions:
  assumes "reshape_column ops x = Inr x"
    and "\<forall>a b. length a = length b \<longrightarrow>
           mat_sub ops a b = Inr (map (\<lambda>(u, v). u - v) (zip a b))"
    and "\<forall>a d. d \<noteq> 0 \<longrightarrow> mat_div ops a d = Inr (map (\<lambda>u. u / d) a)"
    and "0 < h"
    and "\<forall>y. length y = length x \<longrightarrow> length (f y) = length (f x)"
  shows "\<exists>Jm. classified_numerical_jacobian ops s f x h = Inr Jm \<and> length Jm = length (f x) \<and>
     (\<forall>i<length (f x). length (Jm ! i) = length x \<and>
        (\<forall>j<length x.
           Jm ! i ! j =
             (if j < length (adsorbate_names (owner s))
              then (f (x[j := x ! j + max \<bar>h * x ! j\<bar> h]) ! i - f x ! i) / max \<bar>h * x ! j\<bar> h
              else (f (x[j := x ! j - max \<bar>h * x ! j\<bar> h]) ! i - f x ! i)
                   / (- max \<bar>h * x ! j\<bar> h))))"
proof -
  let ?n = "length (adsorbate_names (owner s))"
  let ?C = "\<lambda>j. map (\<lambda>i. difference_quotient f x j
                 (if j < ?n then max \<bar>h * x ! j\<bar> h else - max \<bar>h * x ! j\<bar> h) i)
           [0..<length (f x)]"
  let ?J0 = "replicate (length (f x)) (replicate (length x) (0::real))"
  have cols: "\<forall>j\<in>set [0..<length x].
      jacobian_column ops f x h ?n (f x) j = Inr (?C j) \<and> length (?C j) = length (f x)"
    using jacobian_column_ok[OF assms(2,3,4,5)] by simp
  have "length ?J0 = length (f x)" by simp
  from jacobian_loop_ok[OF cols this] obtain R where
    R: "jacobian_loop ops f x h ?n (f x) [0..<length x] ?J0 = Inr R" "length R = length (f x)"
       "\<forall>i<length (f x). length (R ! i) = length (?J0 ! i) \<and>
        (\<forall>j<length (?J0 ! i). R ! i ! j = (if j \<in> set [0..<length x] then ?C j ! i else ?J0 ! i ! j))"
    by blast
  have "classified_numerical_jacobian ops s f x h = Inr R"
    using R(1) assms(1) by (simp add: classified_numerical_jacobian_def Let_def)
  moreover have "\<forall>i<length (f x). length (R ! i) = length x \<and>
        (\<forall>j<length x.
           R ! i ! j =
             (if j < ?n
              then (f (x[j := x ! j + max \<bar>h * x ! j\<bar> h]) ! i - f x ! i) / max \<bar>h * x ! j\<bar> h
              else (f (x[j := x ! j - max \<bar>h * x ! j\<bar> h]) ! i - f x ! i)
                   / (- max \<bar>h * x ! j\<bar> h)))"
  proof (intro allI impI)
    fix i assume i: "i < length (f x)"
    from R(3) i have a: "length (R ! i) = length (?J0 ! i)"
      and b: "\<forall>j<length (?J0 ! i). R ! i ! j = (if j \<in> set [0..<length x] then ?C j ! i else ?J0 ! i ! j)"
      by blast+
    have l0: "length (?J0 ! i) = length x" using i by simp
    show "length (R ! i) = length x \<and>
        (\<forall>j<length x.
           R ! i ! j =
             (if j < ?n
              then (f (x[j := x ! j + max \<bar>h * x ! j\<bar> h]) ! i - f x ! i) / max \<bar>h * x ! j\<bar> h
              else (f (x[j := x ! j - max \<bar>h * x ! j\<bar> h]) ! i - f x ! i)
                   / (- max \<bar>h * x ! j\<bar> h)))"
    proof (intro conjI allI impI)
      show "length (R ! i) = length x" using a l0 by simp
    next
      fix j assume j: "j < length x"
      with b l0 have "R ! i ! j = ?C j ! i" by simp
      also have "\<dots> = difference_quotient f x j
                 (if j < ?n then max \<bar>h * x ! j\<bar> h else - max \<bar>h * x ! j\<bar> h) i"
        using i by simp
      finally show "R ! i ! j =
             (if j < ?n
              then (f (x[j := x ! j + max \<bar>h * x ! j\<bar> h]) ! i - f x ! i) / max \<bar>h * x ! j\<bar> h
              else (f (x[j := x ! j - max \<bar>h * x ! j\<bar> h]) ! i - f x ! i)
                   / (- max \<bar>h * x ! j\<bar> h))"
        by (simp add: difference_quotient_def)
    qed
  qed
  ultimately show ?thesis using R(2) by blast
qed

text \<open>
  When the backend cannot reshape the point, the method raises before \<open>f\<close> is called; so
  it does under the default backend.
\<close>

lemma classified_numerical_jacobian_reshape_raises:
  "reshape_column ops x = Inl e \<Longrightarrow> classified_numerical_jacobian ops s f x h = Inl e"
  by (simp add: classified_numerical_jacobian_def)

lemma classified_numerical_jacobian_mpmath:
  "classified_numerical_jacobian mpmath_backend s f x h = Inl AttributeError"
  by (simp add: classified_numerical_jacobian_def mpmath_backend_def)

lemma example_jacobian_value:
  "classified_numerical_jacobian column_backend example_solver example_f [1, 0, 2] (1 / 10)
     = Inr [[1, 1, 1], [2, 0, 1]]"
  by (simp add: classified_numerical_jacobian_def jacobian_column_def step_size_def py_max_def
      column_backend_def mpmath_backend_def example_f_def example_defs Let_def upt_rec)

theorem classified_numerical_jacobian_directions_witness:
  "\<exists>Jm. classified_numerical_jacobian column_backend example_solver example_f [1, 0, 2] (1 / 10)
          = Inr Jm
     \<and> length Jm = 2
     \<and> Jm ! 0 ! 1 = (example_f [1, 0 + 1 / 10, 2] ! 0 - example_f [1, 0, 2] ! 0) / (1 / 10)
     \<and> Jm ! 1 ! 2 = (example_f [1, 0, 2 - 2 / 10] ! 1 - example_f [1, 0, 2] ! 1) / (- (2 / 10))
     \<and> Jm ! 0 ! 1 = 1 \<and> Jm ! 1 ! 2 = 1"
proof -
  have ops: "reshape_column column_backend [1, 0, 2] = Inr [1, 0, 2]"
    "\<forall>a b. length a = length b \<longrightarrow>
           mat_sub column_backend a b = Inr (map (\<lambda>(u, v). u - v) (zip a b))"
    "\<forall>a d. d \<noteq> 0 \<longrightarrow> mat_div column_backend a d = Inr (map (\<lambda>u. u / d) a)"
    by (simp_all add: column_backend_def mpmath_backend_def)
  have hyps: "0 < (1 / 10 :: real)"
    "\<forall>y. length y = length [1, 0, 2 :: real] \<longrightarrow>
         length (example_f y) = length (example_f [1, 0, 2])"
    by (simp_all add: example_f_def)
  have n: "length (adsorbate_names (owner example_solver)) = 2"
    by (simp add: example_defs)
  have lf: "length (example_f [1, 0, 2]) = 2" by (simp add: example_f_def)
  from classified_numerical_jacobian_directions[OF ops hyps, of example_solver] obtain Jm where
    J: "classified_numerical_jacobian column_backend example_solver example_f [1, 0, 2] (1 / 10)
          = Inr Jm"
       "length Jm = length (example_f [1, 0, 2])"
    and ent: "\<forall>i<length (example_f [1, 0, 2]). length (Jm ! i) = length [1, 0, 2 :: real] \<and>
        (\<forall>j<length [1, 0, 2 :: real].
           Jm ! i ! j =
             (if j < length (adsorbate_names (owner example_solver))
              then (example_f ([1, 0, 2][j := [1, 0, 2] ! j + max \<bar>1 / 10 * [1, 0, 2] ! j\<bar> (1 / 10)]) ! i
                    - example_f [1, 0, 2] ! i) / max \<bar>1 / 10 * [1, 0, 2] ! j\<bar> (1 / 10)
              else (example_f ([1, 0, 2][j := [1, 0, 2] ! j - max \<bar>1 / 10 * [1, 0, 2] ! j\<bar> (1 / 10)]) ! i
                    - example_f [1, 0, 2] ! i) / (- max \<bar>1 / 10 * [1, 0, 2] ! j\<bar> (1 / 10))))"
    by blast
  from ent[rule_format, of 0] lf have e0: "\<forall>j<length [1, 0, 2 :: real].
           Jm ! 0 ! j =
             (if j < length (adsorbate_names (owner example_solver))
              then (example_f ([1, 0, 2][j := [1, 0, 2] ! j + max \<bar>1 / 10 * [1, 0, 2] ! j\<bar> (1 / 10)]) ! 0
                    - example_f [1, 0, 2] ! 0) / max \<bar>1 / 10 * [1, 0, 2] ! j\<bar> (1 / 10)
              else (example_f ([1, 0, 2][j := [1, 0, 2] ! j - max \<bar>1 / 10 * [1, 0, 2] ! j\<bar> (1 / 10)]) ! 0
                    - example_f [1, 0, 2] ! 0) / (- max \<bar>1 / 10 * [1, 0, 2] ! j\<bar> (1 / 10)))"
    by simp
  from ent[rule_format, of 1] lf have e1: "\<forall>j<length [1, 0, 2 :: real].
           Jm ! 1 ! j =
             (if j < length (adsorbate_names (owner example_solver))
              then (example_f ([1, 0, 2][j := [1, 0, 2] ! j + max \<bar>1 / 10 * [1, 0, 2] ! j\<bar> (1 / 10)]) ! 1
                    - example_f [1, 0, 2] ! 1) / max \<bar>1 / 10 * [1, 0, 2] ! j\<bar> (1 / 10)
              else (example_f ([1, 0, 2][j := [1, 0, 2] ! j - max \<bar>1 / 10 * [1, 0, 2] ! j\<bar> (1 / 10)]) ! 1
                    - example_f [1, 0, 2] ! 1) / (- max \<bar>1 / 10 * [1, 0, 2] ! j\<bar> (1 / 10)))"
    by simp
  from e0[rule_format, of 1] n have a:
    "Jm ! 0 ! 1 = (example_f [1, 0 + 1 / 10, 2] ! 0 - example_f [1, 0, 2] ! 0) / (1 / 10)"
    by simp
  from e1[rule_format, of 2] n have b:
    "Jm ! 1 ! 2 = (example_f [1, 0, 2 - 2 / 10] ! 1 - example_f [1, 0, 2] ! 1) / (- (2 / 10))"
    by simp
  from a have a': "Jm ! 0 ! 1 = 1" by (simp add: example_f_def)
  from b have b': "Jm ! 1 ! 2 = 1" by (simp add: example_f_def)
  from J lf a b a' b' show ?thesis by auto
qed

section \<open>Properties of the Newton iteration\<close>

lemma newton_next_not_live:
  "\<not> live st \<Longrightarrow> fst (newton_next N st) = StopIteration \<and> \<not> live (snd (newton_next N st))"
  by (auto simp: live_def newton_next_def)

lemma newton_next_singular:
  assumes "live st" and "dtheta_dt_expressions N = Some ex"
    and "newton_direction N ex (x_cur st) = Inl ZeroDivisionError"
  shows "newton_next N st =
    (StopIteration,
     st\<lparr>iter_counter := iter_counter st + 1,
        constraint := Some (choice_at (iter_counter st + 1)),
        out := out st @ [''ZeroDivisionError!''], cancel := True, finished := True\<rparr>)"
  using assms by (simp add: live_def newton_next_def Let_def choice_at_def)

lemma newton_next_raise:
  assumes "live st" and "dtheta_dt_expressions N = Some ex"
    and "newton_direction N ex (x_cur st) = Inl e" and "e \<noteq> ZeroDivisionError"
  shows "fst (newton_next N st) = Raise e"
  using assms by (simp add: live_def newton_next_def Let_def)

lemma newton_next_shape:
  assumes "live st" and "dtheta_dt_expressions N = Some ex"
    and "newton_direction N ex (x_cur st) = Inr s" and "length s \<noteq> length (x_cur st)"
  shows "fst (newton_next N st) = Raise ValueError"
  using assms by (simp add: live_def newton_next_def Let_def)

lemma newton_next_yield:
  assumes "live st" and "dtheta_dt_expressions N = Some ex"
    and "newton_direction N ex (x_cur st) = Inr s" and "length s = length (x_cur st)"
  shows "\<exists>st'. newton_next N st =
      (Yield (apply_constraint N (choice_at (iter_counter st + 1))
                (line_search_point N (x_cur st) s),
              nr_norm N (nr_f N (apply_constraint N (choice_at (iter_counter st + 1))
                (line_search_point N (x_cur st) s))),
              nr_f N (apply_constraint N (choice_at (iter_counter st + 1))
                (line_search_point N (x_cur st) s))), st')
    \<and> x_cur st' = apply_constraint N (choice_at (iter_counter st + 1))
                (line_search_point N (x_cur st) s)
    \<and> iter_counter st' = iter_counter st + 1
    \<and> constraint st' = Some (choice_at (iter_counter st + 1))
    \<and> x_class st' = constrained_class N (choice_at (iter_counter st + 1))
                (line_search_point N (x_cur st) s)
    \<and> \<not> finished st'
    \<and> cancel st' = py_seq_eq (x_class st') (x_cur st') (x_class st) (x_cur st)"
  using assms by (simp add: live_def newton_next_def Let_def choice_at_def)

text \<open>Inversion: what a yield, a stop and a raise of a live generator come from.\<close>

lemma newton_next_cases:
  assumes "live st" and "dtheta_dt_expressions N = Some ex"
  obtains (singular) "newton_direction N ex (x_cur st) = Inl ZeroDivisionError"
      "fst (newton_next N st) = StopIteration"
    | (raise) e where "newton_direction N ex (x_cur st) = Inl e" "e \<noteq> ZeroDivisionError"
      "fst (newton_next N st) = Raise e"
    | (shape) s where "newton_direction N ex (x_cur st) = Inr s" "length s \<noteq> length (x_cur st)"
      "fst (newton_next N st) = Raise ValueError"
    | (yield) s where "newton_direction N ex (x_cur st) = Inr s" "length s = length (x_cur st)"
proof (cases "newton_direction N ex (x_cur st)")
  case (Inl e)
  show ?thesis
  proof (cases "e = ZeroDivisionError")
    case True
    with Inl newton_next_singular[OF assms] singular show ?thesis by simp
  next
    case False
    with Inl newton_next_raise[OF assms] raise show ?thesis by blast
  qed
next
  case (Inr s)
  show ?thesis
  proof (cases "length s = length (x_cur st)")
    case True
    with Inr yield show ?thesis by blast
  next
    case False
    with Inr newton_next_shape[OF assms] shape show ?thesis by blast
  qed
qed

lemma newton_take_not_live:
  "\<not> live st \<Longrightarrow> fst (newton_take n N st) = [] \<and>
     fst (snd (newton_take n N st)) = (if n = 0 then Suspended else Exhausted)"
proof (cases n)
  case 0
  then show ?thesis by simp
next
  case (Suc m)
  assume "\<not> live st"
  from newton_next_not_live[OF this, of N] have "fst (newton_next N st) = StopIteration" by simp
  then show ?thesis using Suc by (cases "newton_next N st") simp
qed

lemma newton_take_Suc_cases:
  assumes lv: "live st" and ex: "dtheta_dt_expressions N = Some ex"
    and tk: "newton_take (Suc n) N st = (ts, r, stf)"
  obtains (singular) "newton_direction N ex (x_cur st) = Inl ZeroDivisionError"
      "ts = []" "r = Exhausted"
    | (raise) e where "newton_direction N ex (x_cur st) = Inl e" "e \<noteq> ZeroDivisionError"
      "ts = []" "r = Raised e"
    | (shape) s where "newton_direction N ex (x_cur st) = Inr s" "length s \<noteq> length (x_cur st)"
      "ts = []" "r = Raised ValueError"
    | (yield) s x1 st' ts' where "newton_direction N ex (x_cur st) = Inr s"
      "length s = length (x_cur st)"
      "x1 = apply_constraint N (choice_at (iter_counter st + 1)) (line_search_point N (x_cur st) s)"
      "ts = (x1, nr_norm N (nr_f N x1), nr_f N x1) # ts'"
      "newton_take n N st' = (ts', r, stf)"
      "x_cur st' = x1" "iter_counter st' = iter_counter st + 1"
      "live st' = (\<not> py_seq_eq (x_class st') x1 (x_class st) (x_cur st))"
      "x_class st' = constrained_class N (choice_at (iter_counter st + 1))
                       (line_search_point N (x_cur st) s)"
  using lv ex
proof (cases rule: newton_next_cases)
  case singular
  then have "ts = []" "r = Exhausted"
    using tk by (cases "newton_next N st"; simp)+
  with singular that(1) show ?thesis by blast
next
  case (raise e)
  then have "ts = []" "r = Raised e"
    using tk by (cases "newton_next N st"; simp)+
  with raise that(2) show ?thesis by blast
next
  case (shape s)
  then have "ts = []" "r = Raised ValueError"
    using tk by (cases "newton_next N st"; simp)+
  with shape that(3) show ?thesis by blast
next
  case (yield s)
  let ?x1 = "apply_constraint N (choice_at (iter_counter st + 1)) (line_search_point N (x_cur st) s)"
  from newton_next_yield[OF lv ex yield] obtain st' where
    nx: "newton_next N st = (Yield (?x1, nr_norm N (nr_f N ?x1), nr_f N ?x1), st')"
    and st': "x_cur st' = ?x1" "iter_counter st' = iter_counter st + 1"
      "\<not> finished st'"
      "cancel st' = py_seq_eq (x_class st') (x_cur st') (x_class st) (x_cur st)"
      "x_class st' = constrained_class N (choice_at (iter_counter st + 1))
                       (line_search_point N (x_cur st) s)"
    by blast
  obtain ts' r' stf' where rest: "newton_take n N st' = (ts', r', stf')"
    by (cases "newton_take n N st'") auto
  from tk nx rest have "ts = (?x1, nr_norm N (nr_f N ?x1), nr_f N ?x1) # ts'" "r' = r" "stf' = stf"
    by simp_all
  moreover have "live st' = (\<not> py_seq_eq (x_class st') ?x1 (x_class st) (x_cur st))"
    using st' by (simp add: live_def)
  ultimately show ?thesis using yield st' rest that(4)[of s ?x1 ts' st'] by blast
qed

lemma newton_take_not_live_nil:
  "\<not> live st \<Longrightarrow> newton_take n N st = (ts, r, stf) \<Longrightarrow>
   ts = [] \<and> r = (if n = 0 then Suspended else Exhausted)"
  using newton_take_not_live[of st n N] by simp

lemma trace_elem:
  assumes ex: "dtheta_dt_expressions N = Some ex"
  shows "live st \<Longrightarrow> newton_take n N st = (ts, r, stf) \<Longrightarrow> k < length ts \<Longrightarrow>
    \<exists>s. newton_direction N ex (visited (x_cur st) ts ! k) = Inr s
      \<and> length s = length (visited (x_cur st) ts ! k)
      \<and> fst (ts ! k) = apply_constraint N (choice_at (iter_counter st + k + 1))
                          (line_search_point N (visited (x_cur st) ts ! k) s)
      \<and> snd (ts ! k) = (nr_norm N (nr_f N (fst (ts ! k))), nr_f N (fst (ts ! k)))"
proof (induction n arbitrary: st ts k)
  case 0
  then show ?case by simp
next
  case (Suc n)
  from Suc.prems(1) ex Suc.prems(2) show ?case
  proof (cases rule: newton_take_Suc_cases)
    case singular
    with Suc.prems(3) show ?thesis by simp
  next
    case (raise e)
    with Suc.prems(3) show ?thesis by simp
  next
    case (shape s)
    with Suc.prems(3) show ?thesis by simp
  next
    case (yield s x1 st' ts')
    show ?thesis
    proof (cases k)
      case 0
      with yield show ?thesis by (simp add: visited_def)
    next
      case (Suc k')
      with Suc.prems(3) yield(4) have k': "k' < length ts'" by simp
      have lv': "live st'"
      proof (rule ccontr)
        assume "\<not> live st'"
        from newton_take_not_live_nil[OF this yield(5)] k' show False by simp
      qed
      from Suc.IH[OF lv' yield(5) k'] obtain s' where
        "newton_direction N ex (visited (x_cur st') ts' ! k') = Inr s'"
        "length s' = length (visited (x_cur st') ts' ! k')"
        "fst (ts' ! k') = apply_constraint N (choice_at (iter_counter st' + k' + 1))
                          (line_search_point N (visited (x_cur st') ts' ! k') s')"
        "snd (ts' ! k') = (nr_norm N (nr_f N (fst (ts' ! k'))), nr_f N (fst (ts' ! k')))"
        by blast
      moreover have "visited (x_cur st') ts' ! k' = visited (x_cur st) ts ! k"
        using Suc yield(4,6) by (simp add: visited_def)
      moreover have "ts' ! k' = ts ! k" using Suc yield(4) by simp
      moreover have "iter_counter st' + k' + 1 = iter_counter st + k + 1"
        using Suc yield(7) by simp
      ultimately show ?thesis by (intro exI[of _ s']) simp
    qed
  qed
qed

text \<open>The runs in which every point is a tuple.\<close>

lemma constrained_class_tuple:
  "\<forall>y. constraint_class N y = PyTuple \<Longrightarrow> constrained_class N c y = PyTuple"
  by (cases c) (simp_all add: constrained_class_def)

lemma trace_stationary_last:
  assumes ex: "dtheta_dt_expressions N = Some ex"
    and tup: "\<forall>y. constraint_class N y = PyTuple"
  shows "live st \<Longrightarrow> x_class st = PyTuple \<Longrightarrow> newton_take n N st = (ts, r, stf) \<Longrightarrow>
    k < length ts \<Longrightarrow>
    visited (x_cur st) ts ! Suc k = visited (x_cur st) ts ! k \<Longrightarrow>
    Suc k = length ts \<and> (length ts < n \<longrightarrow> r = Exhausted)"
proof (induction n arbitrary: st ts k)
  case 0
  then show ?case by simp
next
  case (Suc n)
  from Suc.prems(1) ex Suc.prems(3) show ?case
  proof (cases rule: newton_take_Suc_cases)
    case singular
    with Suc.prems(4) show ?thesis by simp
  next
    case (raise e)
    with Suc.prems(4) show ?thesis by simp
  next
    case (shape s)
    with Suc.prems(4) show ?thesis by simp
  next
    case (yield s x1 st' ts')
    have cl: "x_class st' = PyTuple"
      using yield(9) constrained_class_tuple[OF tup] by simp
    have lv: "live st' = (x1 \<noteq> x_cur st)"
      using yield(8) cl Suc.prems(2) by (simp add: py_seq_eq_def)
    show ?thesis
    proof (cases k)
      case 0
      with Suc.prems(5) yield(4) have "x1 = x_cur st" by (simp add: visited_def)
      with lv have "\<not> live st'" by simp
      from newton_take_not_live_nil[OF this yield(5)] yield(4) 0 show ?thesis by auto
    next
      case (Suc k')
      with Suc.prems(4) yield(4) have k': "k' < length ts'" by simp
      have lv': "live st'"
      proof (rule ccontr)
        assume "\<not> live st'"
        from newton_take_not_live_nil[OF this yield(5)] k' show False by simp
      qed
      have "visited (x_cur st') ts' ! Suc k' = visited (x_cur st') ts' ! k'"
        using Suc.prems(5) Suc yield(4,6) by (simp add: visited_def)
      from Suc.IH[OF lv' cl yield(5) k' this] show ?thesis using Suc yield(4) by simp
    qed
  qed
qed

lemma trace_exhausted:
  assumes ex: "dtheta_dt_expressions N = Some ex"
    and tup: "\<forall>y. constraint_class N y = PyTuple"
  shows "live st \<Longrightarrow> x_class st = PyTuple \<Longrightarrow> newton_take n N st = (ts, Exhausted, stf) \<Longrightarrow>
    (ts \<noteq> [] \<and> visited (x_cur st) ts ! length ts = visited (x_cur st) ts ! (length ts - 1))
    \<or> newton_direction N ex (visited (x_cur st) ts ! length ts) = Inl ZeroDivisionError"
proof (induction n arbitrary: st ts)
  case 0
  then show ?case by simp
next
  case (Suc n)
  from Suc.prems(1) ex Suc.prems(3) show ?case
  proof (cases rule: newton_take_Suc_cases)
    case singular
    then show ?thesis by (simp add: visited_def)
  next
    case (raise e)
    then show ?thesis by simp
  next
    case (shape s)
    then show ?thesis by simp
  next
    case (yield s x1 st' ts')
    have cl: "x_class st' = PyTuple"
      using yield(9) constrained_class_tuple[OF tup] by simp
    have lv: "live st' = (x1 \<noteq> x_cur st)"
      using yield(8) cl Suc.prems(2) by (simp add: py_seq_eq_def)
    show ?thesis
    proof (cases "live st'")
      case False
      from newton_take_not_live_nil[OF False yield(5)] have "ts' = []" by simp
      moreover from False lv have "x1 = x_cur st" by simp
      ultimately show ?thesis using yield(4) by (simp add: visited_def)
    next
      case True
      from Suc.IH[OF True cl yield(5)] show ?thesis
      proof
        assume a: "ts' \<noteq> [] \<and> visited (x_cur st') ts' ! length ts'
                     = visited (x_cur st') ts' ! (length ts' - 1)"
        then obtain m where m: "length ts' = Suc m" by (cases ts') auto
        with a yield(4,6) show ?thesis by (simp add: visited_def)
      next
        assume "newton_direction N ex (visited (x_cur st') ts' ! length ts') = Inl ZeroDivisionError"
        with yield(4,6) show ?thesis by (simp add: visited_def)
      qed
    qed
  qed
qed

lemma trace_suspended:
  assumes ex: "dtheta_dt_expressions N = Some ex"
  shows "live st \<Longrightarrow> newton_take n N st = (ts, Suspended, stf) \<Longrightarrow> length ts = n"
proof (induction n arbitrary: st ts)
  case 0
  then show ?case by simp
next
  case (Suc n)
  from Suc.prems(1) ex Suc.prems(2) show ?case
  proof (cases rule: newton_take_Suc_cases)
    case singular
    then show ?thesis by simp
  next
    case (raise e)
    then show ?thesis by simp
  next
    case (shape s)
    then show ?thesis by simp
  next
    case (yield s x1 st' ts')
    show ?thesis
    proof (cases "live st'")
      case False
      from newton_take_not_live_nil[OF False yield(5)] have "ts' = []" "n = 0"
        by (simp_all split: if_splits)
      with yield(4) show ?thesis by simp
    next
      case True
      from Suc.IH[OF True yield(5)] yield(4) show ?thesis by simp
    qed
  qed
qed

lemma trace_raised:
  assumes ex: "dtheta_dt_expressions N = Some ex"
  shows "live st \<Longrightarrow> newton_take n N st = (ts, Raised e, stf) \<Longrightarrow>
    (newton_direction N ex (visited (x_cur st) ts ! length ts) = Inl e \<and> e \<noteq> ZeroDivisionError)
    \<or> (e = ValueError \<and> (\<exists>s. newton_direction N ex (visited (x_cur st) ts ! length ts) = Inr s
          \<and> length s \<noteq> length (visited (x_cur st) ts ! length ts)))"
proof (induction n arbitrary: st ts)
  case 0
  then show ?case by simp
next
  case (Suc n)
  from Suc.prems(1) ex Suc.prems(2) show ?case
  proof (cases rule: newton_take_Suc_cases)
    case singular
    then show ?thesis by simp
  next
    case (raise e')
    then show ?thesis by (simp add: visited_def)
  next
    case (shape s)
    then show ?thesis by (simp add: visited_def)
  next
    case (yield s x1 st' ts')
    show ?thesis
    proof (cases "live st'")
      case False
      from newton_take_not_live_nil[OF False yield(5)] show ?thesis by (simp split: if_splits)
    next
      case True
      from Suc.IH[OF True yield(5)] yield(4,6) show ?thesis by (simp add: visited_def)
    qed
  qed
qed

lemmas newton_defs = newton_next_def newton_init_def newton_direction_def line_search_point_def
  stepped_point_def apply_constraint_def constrained_class_def quasi_constraint_def
  py_seq_eq_def example_newton_def example_Axb_solver_def singular_newton_def Let_def

lemma example_newton_run:
  "newton_take 9 example_newton (newton_init example_newton) =
     ([([- (1 / 2)], 1 / 2, [1 / 2]), ([- (3 / 4)], 1 / 4, [1 / 4]),
       ([- (7 / 8)], 1 / 8, [1 / 8]), ([- (15 / 16)], 1 / 16, [1 / 16]),
       ([- (31 / 32)], 1 / 32, [1 / 32]), ([0], 1, [1]), ([0], 1, [1])],
      Exhausted,
      \<lparr>iter_counter = 7, x_cur = [0], x_class = PyTuple, cancel = True, finished = True,
       constraint = Some RealConstraint, out = [''Solver: Found stationary point.'']\<rparr>)"
  by (simp add: eval_nat_numeral newton_defs)

lemma singular_newton_run:
  "newton_take 3 singular_newton (newton_init singular_newton) =
     ([], Exhausted,
      \<lparr>iter_counter = 1, x_cur = [0], x_class = PyTuple, cancel = True, finished = True,
       constraint = Some QuasiConstraint, out = [''ZeroDivisionError!'']\<rparr>)"
  by (simp add: eval_nat_numeral newton_defs)

text \<open>
  The class of the starting point is seen by the test of the first pass. From the root as
  a tuple the first pass finds the stationary point; from the same root as a list the
  first pass compares a tuple with a list, so that the point is yielded once more before
  the second pass, which compares two tuples, finds it.
\<close>

lemma tuple_start_run:
  "fst (newton_take 5 tuple_start_newton (newton_init tuple_start_newton)) = [([- 1], 0, [0])]
   \<and> fst (snd (newton_take 5 tuple_start_newton (newton_init tuple_start_newton))) = Exhausted"
  by (simp add: eval_nat_numeral newton_defs tuple_start_newton_def)

lemma list_start_run:
  "fst (newton_take 5 list_start_newton (newton_init list_start_newton))
     = [([- 1], 0, [0]), ([- 1], 0, [0])]
   \<and> fst (snd (newton_take 5 list_start_newton (newton_init list_start_newton))) = Exhausted"
  by (simp add: eval_nat_numeral newton_defs list_start_newton_def)

lemma live_newton_init: "live (newton_init N)"
  by (simp add: live_def newton_init_def)

lemma x_cur_newton_init: "x_cur (newton_init N) = nr_x0 N"
  by (simp add: newton_init_def quasi_constraint_def)

lemma x_class_newton_init: "x_class (newton_init N) = x0_class N"
  by (simp add: newton_init_def)

lemma iter_counter_newton_init: "iter_counter (newton_init N) = 0"
  by (simp add: newton_init_def)

text \<open>
  Claim C3. Let the starting point and every result of the real constraint be tuples, and
  let a caller pull at most \<open>n\<close> elements from a fresh generator and get the triples \<open>ts\<close>.
  Every triple is a point with the norm of its residual and its residual. A triple whose
  point equals the point before it is the last one, so the stationary point is still
  yielded, and a further pull finds the sequence ended. The sequence ends without an
  exception only after such a triple or when the linear solve at the last point raises
  \<^verbatim>\<open>ZeroDivisionError\<close>; it is cut by an exception only when the linear solve raises
  another exception or returns a vector of the wrong length; otherwise the caller gets all
  \<open>n\<close> elements. Neither the norm of the residual nor the pass counter takes part.
\<close>

theorem newton_sequence_termination:
  assumes "dtheta_dt_expressions N = Some ex"
    and "x0_class N = PyTuple" and "\<forall>y. constraint_class N y = PyTuple"
    and "newton_take n N (newton_init N) = (ts, r, stf)"
  shows "(\<forall>k<length ts.
            snd (ts ! k) = (nr_norm N (nr_f N (fst (ts ! k))), nr_f N (fst (ts ! k))))
    \<and> (\<forall>k<length ts. visited (nr_x0 N) ts ! Suc k = visited (nr_x0 N) ts ! k \<longrightarrow>
            Suc k = length ts \<and> (length ts < n \<longrightarrow> r = Exhausted))
    \<and> (r = Exhausted \<longrightarrow>
          (ts \<noteq> [] \<and> visited (nr_x0 N) ts ! length ts = visited (nr_x0 N) ts ! (length ts - 1))
          \<or> newton_direction N ex (visited (nr_x0 N) ts ! length ts) = Inl ZeroDivisionError)
    \<and> (r = Suspended \<longrightarrow> length ts = n)
    \<and> (\<forall>e. r = Raised e \<longrightarrow>
          (newton_direction N ex (visited (nr_x0 N) ts ! length ts) = Inl e
             \<and> e \<noteq> ZeroDivisionError)
          \<or> (e = ValueError \<and>
              (\<exists>s. newton_direction N ex (visited (nr_x0 N) ts ! length ts) = Inr s
                 \<and> length s \<noteq> length (visited (nr_x0 N) ts ! length ts))))"
proof -
  have cl: "x_class (newton_init N) = PyTuple"
    using assms(2) by (simp add: x_class_newton_init)
  show ?thesis
  proof (intro conjI allI impI)
    fix k assume "k < length ts"
    from trace_elem[OF assms(1) live_newton_init assms(4) this]
    show "snd (ts ! k) = (nr_norm N (nr_f N (fst (ts ! k))), nr_f N (fst (ts ! k)))"
      by blast
  next
    fix k assume k: "k < length ts"
      and eq: "visited (nr_x0 N) ts ! Suc k = visited (nr_x0 N) ts ! k"
    from trace_stationary_last[OF assms(1,3) live_newton_init cl assms(4) k] eq
    have *: "Suc k = length ts \<and> (length ts < n \<longrightarrow> r = Exhausted)"
      by (simp add: x_cur_newton_init)
    from * show "Suc k = length ts" by simp
    assume "length ts < n"
    with * show "r = Exhausted" by simp
  next
    assume "r = Exhausted"
    with assms(4) have "newton_take n N (newton_init N) = (ts, Exhausted, stf)" by simp
    from trace_exhausted[OF assms(1,3) live_newton_init cl this]
    show "(ts \<noteq> [] \<and> visited (nr_x0 N) ts ! length ts = visited (nr_x0 N) ts ! (length ts - 1))
            \<or> newton_direction N ex (visited (nr_x0 N) ts ! length ts) = Inl ZeroDivisionError"
      by (simp add: x_cur_newton_init)
  next
    assume "r = Suspended"
    with assms(4) have "newton_take n N (newton_init N) = (ts, Suspended, stf)" by simp
    from trace_suspended[OF assms(1) live_newton_init this]
    show "length ts = n" .
  next
    fix e assume "r = Raised e"
    with assms(4) have "newton_take n N (newton_init N) = (ts, Raised e, stf)" by simp
    from trace_raised[OF assms(1) live_newton_init this]
    show "(newton_direction N ex (visited (nr_x0 N) ts ! length ts) = Inl e
               \<and> e \<noteq> ZeroDivisionError)
            \<or> (e = ValueError \<and>
                (\<exists>s. newton_direction N ex (visited (nr_x0 N) ts ! length ts) = Inr s
                   \<and> length s \<noteq> length (visited (nr_x0 N) ts ! length ts)))"
      by (simp add: x_cur_newton_init)
  qed
qed


text \<open>
  Claim C4. The generator starts from the initial guess unchanged. A pass of a live
  generator whose linear solve succeeds yields a triple, counts one pass more and sets the
  constraint of that pass: while fewer than five passes have gone before, the
  quasi-constraint, so that the yielded point is the point of the line search as it is;
  afterwards the caller's real constraint, applied to the point of the line search. In a
  run from the start the \<open>k\<close>-th triple, counted from 0, is therefore unconstrained for
  \<open>k < 5\<close> and constrained from the sixth pass on.
\<close>

theorem newton_constraint_phases:
  assumes "dtheta_dt_expressions N = Some ex"
    and "newton_take n N (newton_init N) = (ts, r, stf)"
  shows "x_cur (newton_init N) = nr_x0 N
    \<and> iter_counter (newton_init N) = 0
    \<and> (\<forall>st s. live st \<and> newton_direction N ex (x_cur st) = Inr s
            \<and> length s = length (x_cur st) \<longrightarrow>
          (\<exists>nrm fx. fst (newton_next N st) =
             Yield (if iter_counter st < 5 then line_search_point N (x_cur st) s
                    else real_constraint N (line_search_point N (x_cur st) s), nrm, fx))
          \<and> iter_counter (snd (newton_next N st)) = iter_counter st + 1
          \<and> constraint (snd (newton_next N st)) =
              Some (if iter_counter st < 5 then QuasiConstraint else RealConstraint))
    \<and> (\<forall>k<length ts. \<exists>s. newton_direction N ex (visited (nr_x0 N) ts ! k) = Inr s
          \<and> fst (ts ! k) =
              (if k < 5 then line_search_point N (visited (nr_x0 N) ts ! k) s
               else real_constraint N (line_search_point N (visited (nr_x0 N) ts ! k) s)))"
proof (intro conjI allI impI)
  show "x_cur (newton_init N) = nr_x0 N" by (rule x_cur_newton_init)
next
  show "iter_counter (newton_init N) = 0" by (rule iter_counter_newton_init)
next
  fix st s
  assume a: "live st \<and> newton_direction N ex (x_cur st) = Inr s
            \<and> length s = length (x_cur st)"
  then have lv: "live st" and d: "newton_direction N ex (x_cur st) = Inr s"
    and l: "length s = length (x_cur st)" by simp_all
  have ac: "apply_constraint N (choice_at (Suc (iter_counter st))) y
      = (if iter_counter st < 5 then y else real_constraint N y)" for y
    by (simp add: apply_constraint_def choice_at_def quasi_constraint_def)
  from newton_next_yield[OF lv assms(1) d l] obtain st' where
    nx: "newton_next N st =
      (Yield (apply_constraint N (choice_at (iter_counter st + 1))
                (line_search_point N (x_cur st) s),
              nr_norm N (nr_f N (apply_constraint N (choice_at (iter_counter st + 1))
                (line_search_point N (x_cur st) s))),
              nr_f N (apply_constraint N (choice_at (iter_counter st + 1))
                (line_search_point N (x_cur st) s))), st')"
    and st': "iter_counter st' = iter_counter st + 1"
      "constraint st' = Some (choice_at (iter_counter st + 1))"
    by blast
  show "\<exists>nrm fx. fst (newton_next N st) =
             Yield (if iter_counter st < 5 then line_search_point N (x_cur st) s
                    else real_constraint N (line_search_point N (x_cur st) s), nrm, fx)"
    using nx by (simp add: ac)
  show "iter_counter (snd (newton_next N st)) = iter_counter st + 1"
    using nx st' by simp
  show "constraint (snd (newton_next N st)) =
              Some (if iter_counter st < 5 then QuasiConstraint else RealConstraint)"
    using nx st' by (simp add: choice_at_def)
next
  fix k assume "k < length ts"
  from trace_elem[OF assms(1) live_newton_init assms(2) this] obtain s where
    s: "newton_direction N ex (visited (nr_x0 N) ts ! k) = Inr s"
    and p: "fst (ts ! k) = apply_constraint N (choice_at (k + 1))
                          (line_search_point N (visited (nr_x0 N) ts ! k) s)"
    by (auto simp: x_cur_newton_init iter_counter_newton_init)
  have "apply_constraint N (choice_at (k + 1)) (line_search_point N (visited (nr_x0 N) ts ! k) s)
      = (if k < 5 then line_search_point N (visited (nr_x0 N) ts ! k) s
         else real_constraint N (line_search_point N (visited (nr_x0 N) ts ! k) s))"
    by (simp add: apply_constraint_def choice_at_def quasi_constraint_def)
  with s p show "\<exists>s. newton_direction N ex (visited (nr_x0 N) ts ! k) = Inr s
          \<and> fst (ts ! k) =
              (if k < 5 then line_search_point N (visited (nr_x0 N) ts ! k) s
               else real_constraint N (line_search_point N (visited (nr_x0 N) ts ! k) s))"
    by (intro exI[of _ s]) simp
qed

text \<open>
  Claim C5, as amended. When the linear solve of a live generator raises
  \<^verbatim>\<open>ZeroDivisionError\<close>, the pass prints \<^verbatim>\<open>ZeroDivisionError!\<close> and the generator returns:
  the caller sees the ordinary end of the sequence, with no further element and no
  exception; the point is left as it was, and every later call finds the generator
  finished, so nothing is retried.
\<close>

theorem singular_solve_ends_sequence:
  assumes "live st" and "dtheta_dt_expressions N = Some ex"
    and "newton_direction N ex (x_cur st) = Inl ZeroDivisionError"
  shows "fst (newton_next N st) = StopIteration
    \<and> out (snd (newton_next N st)) = out st @ [''ZeroDivisionError!'']
    \<and> x_cur (snd (newton_next N st)) = x_cur st
    \<and> newton_next N (snd (newton_next N st)) = (StopIteration, snd (newton_next N st))
    \<and> fst (newton_take (Suc m) N st) = []
    \<and> fst (snd (newton_take (Suc m) N st)) = Exhausted"
proof -
  note nx = newton_next_singular[OF assms]
  have fin: "finished (snd (newton_next N st))" by (simp add: nx)
  have "newton_next N (snd (newton_next N st)) = (StopIteration, snd (newton_next N st))"
    using fin by (simp add: newton_next_def)
  then show ?thesis by (simp add: nx)
qed

text \<open>
  No pass counts against a bound: a root finder whose linear solve succeeds and whose
  constrained point always differs from the point before it yields as many elements as the
  caller pulls.
\<close>

lemma newton_take_no_cap:
  assumes ex: "dtheta_dt_expressions N = Some ex"
    and solv: "\<And>x. Inv x \<Longrightarrow> \<exists>s. newton_direction N ex x = Inr s \<and> length s = length x"
    and moves: "\<And>x s c. Inv x \<Longrightarrow> newton_direction N ex x = Inr s \<Longrightarrow>
                  Inv (apply_constraint N c (line_search_point N x s)) \<and>
                  apply_constraint N c (line_search_point N x s) \<noteq> x"
  shows "live st \<Longrightarrow> Inv (x_cur st) \<Longrightarrow>
         length (fst (newton_take n N st)) = n \<and> fst (snd (newton_take n N st)) = Suspended"
proof (induction n arbitrary: st)
  case 0
  then show ?case by simp
next
  case (Suc n)
  obtain ts r stf where tk: "newton_take (Suc n) N st = (ts, r, stf)"
    by (cases "newton_take (Suc n) N st") auto
  from Suc.prems(1) ex tk show ?case
  proof (cases rule: newton_take_Suc_cases)
    case singular
    with solv[OF Suc.prems(2)] show ?thesis by simp
  next
    case (raise e)
    with solv[OF Suc.prems(2)] show ?thesis by simp
  next
    case (shape s)
    with solv[OF Suc.prems(2)] show ?thesis by simp
  next
    case (yield s x1 st' ts')
    from moves[OF Suc.prems(2) yield(1)] yield(3,6,8) have "live st'" "Inv (x_cur st')"
      by (simp_all add: py_seq_eq_def)
    from Suc.IH[OF this] yield(4,5) tk show ?thesis by simp
  qed
qed

lemma drifting_newton_never_ends:
  "length (fst (newton_take n drifting_newton (newton_init drifting_newton))) = n
   \<and> fst (snd (newton_take n drifting_newton (newton_init drifting_newton))) = Suspended"
proof (rule newton_take_no_cap[where Inv = "\<lambda>x. length x = 1" and ex = "()"])
  show "dtheta_dt_expressions drifting_newton = Some ()"
    by (simp add: drifting_newton_def)
next
  fix x :: "real list" assume "length x = 1"
  then show "\<exists>s. newton_direction drifting_newton () x = Inr s \<and> length s = length x"
    by (simp add: newton_direction_def drifting_newton_def example_Axb_solver_def)
next
  fix x s :: "real list" and c
  assume l: "length x = 1" and d: "newton_direction drifting_newton () x = Inr s"
  from l obtain a where x: "x = [a]" by (cases x) auto
  from d have s: "s = [- 1]"
    by (simp add: newton_direction_def drifting_newton_def example_Axb_solver_def)
  have "line_search_point drifting_newton x s = [a - 1]"
    by (simp add: line_search_point_def stepped_point_def drifting_newton_def x s)
  moreover have "apply_constraint drifting_newton c y = y" for y
    by (cases c) (simp_all add: apply_constraint_def quasi_constraint_def drifting_newton_def)
  ultimately show "length (apply_constraint drifting_newton c (line_search_point drifting_newton x s)) = 1
      \<and> apply_constraint drifting_newton c (line_search_point drifting_newton x s) \<noteq> x"
    by (simp add: x)
next
  show "live (newton_init drifting_newton)" by (rule live_newton_init)
next
  show "length (x_cur (newton_init drifting_newton)) = 1"
    by (simp add: x_cur_newton_init drifting_newton_def)
qed

theorem newton_sequence_termination_witness:
  "\<exists>ts stf. newton_take 9 example_newton (newton_init example_newton) = (ts, Exhausted, stf)
     \<and> length ts = 7 \<and> fst (ts ! 6) = fst (ts ! 5) \<and> fst (ts ! 5) \<noteq> fst (ts ! 4)
     \<and> snd (ts ! 6) = (nr_norm example_newton (nr_f example_newton (fst (ts ! 6))),
                        nr_f example_newton (fst (ts ! 6)))
     \<and> Suc 6 = length ts"
proof -
  let ?ts = "[([- (1 / 2)], 1 / 2, [1 / 2]), ([- (3 / 4)], 1 / 4, [1 / 4]),
       ([- (7 / 8)], 1 / 8, [1 / 8]), ([- (15 / 16)], 1 / 16, [1 / 16]),
       ([- (31 / 32)], 1 / 32, [1 / 32]), ([0], 1, [1]), ([0 :: real], 1 :: real, [1 :: real])]"
  have ex: "dtheta_dt_expressions example_newton = Some ()"
    "x0_class example_newton = PyTuple" "\<forall>y. constraint_class example_newton y = PyTuple"
    by (simp_all add: example_newton_def)
  note run = example_newton_run
  note t = newton_sequence_termination[OF ex run]
  from t have a: "\<forall>k<length ?ts.
            snd (?ts ! k) = (nr_norm example_newton (nr_f example_newton (fst (?ts ! k))),
                             nr_f example_newton (fst (?ts ! k)))"
    by blast
  from t have b: "\<forall>k<length ?ts.
        visited (nr_x0 example_newton) ?ts ! Suc k = visited (nr_x0 example_newton) ?ts ! k \<longrightarrow>
            Suc k = length ?ts \<and> (length ?ts < 9 \<longrightarrow> Exhausted = Exhausted)"
    by blast
  have v: "visited (nr_x0 example_newton) ?ts ! Suc 6 = visited (nr_x0 example_newton) ?ts ! 6"
    by (simp add: visited_def)
  from a[rule_format, of 6] have a6:
    "snd (?ts ! 6) = (nr_norm example_newton (nr_f example_newton (fst (?ts ! 6))),
                        nr_f example_newton (fst (?ts ! 6)))" by simp
  from b[rule_format, of 6] v have b6: "Suc 6 = length ?ts" by simp
  show ?thesis
    apply (rule exI[of _ ?ts])
    apply (rule exI)
    apply (intro conjI)
         apply (rule run)
        apply simp
       apply simp
      apply simp
     apply (rule a6)
    apply (rule b6)
    done
qed

theorem newton_constraint_phases_witness:
  "fst (newton_next example_newton (newton_init example_newton)) = Yield ([- (1 / 2)], 1 / 2, [1 / 2])
   \<and> constraint (snd (newton_next example_newton (newton_init example_newton)))
       = Some QuasiConstraint
   \<and> (\<exists>ts stf. newton_take 9 example_newton (newton_init example_newton) = (ts, Exhausted, stf)
        \<and> fst (ts ! 4) = line_search_point example_newton [- (15 / 16)] [- (1 / 16)]
        \<and> fst (ts ! 4) = [- (31 / 32)]
        \<and> fst (ts ! 5) = real_constraint example_newton
                            (line_search_point example_newton [- (31 / 32)] [- (1 / 32)])
        \<and> line_search_point example_newton [- (31 / 32)] [- (1 / 32)] = [- (63 / 64)]
        \<and> fst (ts ! 5) = [0])"
proof -
  let ?ts = "[([- (1 / 2)], 1 / 2, [1 / 2]), ([- (3 / 4)], 1 / 4, [1 / 4]),
       ([- (7 / 8)], 1 / 8, [1 / 8]), ([- (15 / 16)], 1 / 16, [1 / 16]),
       ([- (31 / 32)], 1 / 32, [1 / 32]), ([0], 1, [1]), ([0 :: real], 1 :: real, [1 :: real])]"
  have ex: "dtheta_dt_expressions example_newton = Some ()"
    by (simp add: example_newton_def)
  note run = example_newton_run
  note t = newton_constraint_phases[OF ex run]
  from t have step: "\<forall>st s. live st \<and> newton_direction example_newton () (x_cur st) = Inr s
            \<and> length s = length (x_cur st) \<longrightarrow>
          (\<exists>nrm fx. fst (newton_next example_newton st) =
             Yield (if iter_counter st < 5 then line_search_point example_newton (x_cur st) s
                    else real_constraint example_newton
                           (line_search_point example_newton (x_cur st) s), nrm, fx))
          \<and> iter_counter (snd (newton_next example_newton st)) = iter_counter st + 1
          \<and> constraint (snd (newton_next example_newton st)) =
              Some (if iter_counter st < 5 then QuasiConstraint else RealConstraint)"
    by blast
  from t have el: "\<forall>k<length ?ts. \<exists>s.
        newton_direction example_newton () (visited (nr_x0 example_newton) ?ts ! k) = Inr s
          \<and> fst (?ts ! k) =
              (if k < 5 then line_search_point example_newton
                               (visited (nr_x0 example_newton) ?ts ! k) s
               else real_constraint example_newton
                      (line_search_point example_newton
                         (visited (nr_x0 example_newton) ?ts ! k) s))"
    by blast
  have pre: "live (newton_init example_newton) \<and>
      newton_direction example_newton () (x_cur (newton_init example_newton)) = Inr [- 1]
      \<and> length [- 1 :: real] = length (x_cur (newton_init example_newton))"
    by (simp add: live_def newton_defs)
  from step[rule_format, OF pre] have
    c0: "constraint (snd (newton_next example_newton (newton_init example_newton)))
       = Some QuasiConstraint"
    by (simp add: newton_init_def)
  have y0: "fst (newton_next example_newton (newton_init example_newton))
      = Yield ([- (1 / 2)], 1 / 2, [1 / 2])"
    by (simp add: newton_defs)
  have d4: "newton_direction example_newton () [- (15 / 16)] = Inr [- (1 / 16)]"
    and d5: "newton_direction example_newton () [- (31 / 32)] = Inr [- (1 / 32)]"
    by (simp_all add: newton_defs)
  have v4: "visited (nr_x0 example_newton) ?ts ! 4 = [- (15 / 16)]"
    and v5: "visited (nr_x0 example_newton) ?ts ! 5 = [- (31 / 32)]"
    by (simp_all add: visited_def)
  from el[rule_format, of 4] v4 d4 have e4:
    "fst (?ts ! 4) = line_search_point example_newton [- (15 / 16)] [- (1 / 16)]"
    by auto
  from el[rule_format, of 5] v5 d5 have e5:
    "fst (?ts ! 5) = real_constraint example_newton
                            (line_search_point example_newton [- (31 / 32)] [- (1 / 32)])"
    by auto
  have l5: "line_search_point example_newton [- (31 / 32)] [- (1 / 32)] = [- (63 / 64)]"
    by (simp add: newton_defs)
  have "\<exists>ts stf. newton_take 9 example_newton (newton_init example_newton) = (ts, Exhausted, stf)
        \<and> fst (ts ! 4) = line_search_point example_newton [- (15 / 16)] [- (1 / 16)]
        \<and> fst (ts ! 4) = [- (31 / 32)]
        \<and> fst (ts ! 5) = real_constraint example_newton
                            (line_search_point example_newton [- (31 / 32)] [- (1 / 32)])
        \<and> line_search_point example_newton [- (31 / 32)] [- (1 / 32)] = [- (63 / 64)]
        \<and> fst (ts ! 5) = [0]"
    apply (rule exI[of _ ?ts])
    apply (rule exI)
    apply (intro conjI)
         apply (rule run)
        apply (rule e4)
       apply simp
      apply (rule e5)
     apply (rule l5)
    apply simp
    done
  with y0 c0 show ?thesis by blast
qed

theorem singular_solve_ends_sequence_witness:
  "fst (newton_next singular_newton (newton_init singular_newton)) = StopIteration
   \<and> out (snd (newton_next singular_newton (newton_init singular_newton))) = [''ZeroDivisionError!'']
   \<and> x_cur (snd (newton_next singular_newton (newton_init singular_newton))) = [0]
   \<and> fst (newton_take (Suc 2) singular_newton (newton_init singular_newton)) = []
   \<and> fst (snd (newton_take (Suc 2) singular_newton (newton_init singular_newton))) = Exhausted"
proof -
  have hyps: "live (newton_init singular_newton)"
    "dtheta_dt_expressions singular_newton = Some ()"
    "newton_direction singular_newton () (x_cur (newton_init singular_newton))
       = Inl ZeroDivisionError"
    by (simp_all add: live_def newton_defs)
  from singular_solve_ends_sequence[OF hyps, of 2] show ?thesis
    by (simp add: newton_init_def quasi_constraint_def singular_newton_def example_newton_def)
qed

text \<open>
  Claim C5 as stated fails on \<open>singular_newton\<close>: the solve at the starting point raises
  \<^verbatim>\<open>ZeroDivisionError\<close>, and the first call of \<^verbatim>\<open>next\<close> ends the sequence in the ordinary
  way; a caller that pulls three elements gets none and no exception.
\<close>

theorem singular_solve_counterexample:
  "newton_direction singular_newton () (nr_x0 singular_newton) = Inl ZeroDivisionError
   \<and> fst (newton_next singular_newton (newton_init singular_newton)) = StopIteration
   \<and> fst (snd (newton_take 3 singular_newton (newton_init singular_newton))) = Exhausted
   \<and> fst (snd (newton_take 3 singular_newton (newton_init singular_newton)))
       \<noteq> Raised ZeroDivisionError"
  by (simp add: eval_nat_numeral newton_defs)

section \<open>Properties of the choice of the transition state\<close>











end
